theory Spec2Isabelle
  imports Complex_Main
begin

section \<open>The volleyball roster service: storage model\<close>

text \<open>
  The repository holds two revisions of one Express server over PostgreSQL.
  The later revision has a \<^verbatim>\<open>sessions\<close> table and a \<^verbatim>\<open>player_sessions\<close> table keyed by
  (player, session); the earlier revision (\<^verbatim>\<open>server.js\<close>) stores the date inline in
  \<^verbatim>\<open>player_sessions\<close>. Both share the \<^verbatim>\<open>players\<close> table and the handlers over it.

  A handler is a function from the request and the database to the response and the
  database. Request bodies are JSON objects whose fields, when present, carry the JSON
  type of the column they feed (numbers for INTEGER, booleans for BOOLEAN, strings for
  VARCHAR and DATE); an absent or null field is \<open>None\<close>. A nullable column is an option.
  The storage engine is modelled as far as the schema of \<^verbatim>\<open>initializeDatabase\<close> states it:
  column types, NOT NULL, CHECK, UNIQUE, foreign keys with ON DELETE CASCADE, SERIAL
  sequences (which a rollback does not restore) and transactions.
\<close>

subsection \<open>Storage errors\<close>

datatype pgerr =
    unique_violation string
  | foreign_key_violation string
  | not_null_violation string
  | check_violation string
  | string_data_right_truncation
  | numeric_value_out_of_range
  | invalid_datetime_format
  | division_by_zero
  | sequence_generator_limit_exceeded

text \<open>\<^verbatim>\<open>err.code\<close>: the SQLSTATE of a storage error.\<close>

fun code :: "pgerr \<Rightarrow> string" where
  "code (unique_violation c) = ''23505''"
| "code (foreign_key_violation c) = ''23503''"
| "code (not_null_violation c) = ''23502''"
| "code (check_violation c) = ''23514''"
| "code string_data_right_truncation = ''22001''"
| "code numeric_value_out_of_range = ''22003''"
| "code invalid_datetime_format = ''22007''"
| "code division_by_zero = ''22012''"
| "code sequence_generator_limit_exceeded = ''2200H''"

subsection \<open>Column types\<close>

type_synonym timestamp = nat
type_synonym date = int

text \<open>INTEGER is 32 bits wide; a value outside the range is an error, never a wrap-around.\<close>

definition int4_ok :: "int \<Rightarrow> bool" where
  "int4_ok n = (- 2147483648 \<le> n \<and> n \<le> 2147483647)"

definition int4_in :: "int option \<Rightarrow> pgerr + int option" where
  "int4_in v =
     (case v of
        None \<Rightarrow> Inr None
      | Some n \<Rightarrow> if int4_ok n then Inr (Some n) else Inl numeric_value_out_of_range)"

text \<open>
  VARCHAR(n): a longer string is an error unless the excess is all spaces, in which case
  it is cut to n characters.
\<close>

definition varchar :: "nat \<Rightarrow> string option \<Rightarrow> pgerr + string option" where
  "varchar n v =
     (case v of
        None \<Rightarrow> Inr None
      | Some s \<Rightarrow>
          if length s \<le> n then Inr (Some s)
          else if list_all (\<lambda>c. c = CHR '' '') (drop n s) then Inr (Some (take n s))
          else Inl string_data_right_truncation)"

subsection \<open>Tables\<close>

text \<open>
  \<^verbatim>\<open>players\<close>, as both revisions create it. \<open>p_id\<close> is the column \<^verbatim>\<open>id\<close>, \<open>player_id\<close> the
  external identifier.
\<close>

record player =
  p_id :: int
  player_id :: string
  full_name :: string
  phone_number :: "string option"
  instagram_username :: "string option"
  age :: "int option"
  skill_level :: "string option"
  form_submissions_count :: "int option"
  sessions_attended_count :: "int option"
  mvp_awards_count :: "int option"
  total_points_scored :: "int option"
  total_saves :: "int option"
  p_created_at :: "timestamp option"
  p_updated_at :: "timestamp option"

record session =
  s_id :: int
  session_date :: date
  s_created_at :: "timestamp option"

text \<open>\<^verbatim>\<open>player_sessions\<close> of the later revision: UNIQUE(player_id, session_id).\<close>

record player_session =
  ps_id :: int
  ps_player_id :: int
  ps_session_id :: int
  points_scored :: "int option"
  saves :: "int option"
  mvp_award :: "bool option"
  attendance_status :: "string option"
  ps_created_at :: "timestamp option"

text \<open>\<^verbatim>\<open>player_sessions\<close> of the earlier revision: the date inline, no uniqueness constraint.\<close>

record player_session_v1 =
  ps1_id :: int
  ps1_player_id :: int
  ps1_session_date :: date
  ps1_points_scored :: "int option"
  ps1_saves :: "int option"
  ps1_mvp_award :: "bool option"
  ps1_attendance_status :: "string option"
  ps1_created_at :: "timestamp option"

text \<open>
  The part of the database both revisions share, extended by each revision's own tables.
  A sequence field holds the last value \<^verbatim>\<open>nextval\<close> returned. \<^verbatim>\<open>form_submissions\<close> is
  created by both revisions and never read or written, so it stays empty and is left out.
\<close>

record players_db =
  players :: "player list"
  players_id_seq :: int

record db = players_db +
  sessions :: "session list"
  sessions_id_seq :: int
  player_sessions :: "player_session list"
  player_sessions_id_seq :: int

record db_v1 = players_db +
  player_sessions_v1 :: "player_session_v1 list"
  player_sessions_v1_id_seq :: int

definition empty_db :: db where
  "empty_db =
     \<lparr>players = [], players_id_seq = 0, sessions = [], sessions_id_seq = 0,
      player_sessions = [], player_sessions_id_seq = 0\<rparr>"

definition empty_db_v1 :: db_v1 where
  "empty_db_v1 =
     \<lparr>players = [], players_id_seq = 0,
      player_sessions_v1 = [], player_sessions_v1_id_seq = 0\<rparr>"

subsection \<open>Requests and responses\<close>

text \<open>The body of POST /api/players and PUT /api/players/:id.\<close>

record player_body =
  b_player_id :: "string option"
  b_full_name :: "string option"
  b_phone_number :: "string option"
  b_instagram_username :: "string option"
  b_age :: "int option"
  b_skill_level :: "string option"

text \<open>The body of POST /api/sessions in the later revision.\<close>

record session_body =
  sb_session_date :: "string option"

text \<open>The body of POST /api/player-sessions (later revision).\<close>

record stats_body =
  r_player_id :: "int option"
  r_session_id :: "int option"
  r_points_scored :: "int option"
  r_saves :: "int option"
  r_mvp_award :: "bool option"

text \<open>The body of POST /api/sessions in the earlier revision.\<close>

record stats_body_v1 =
  q_player_id :: "int option"
  q_session_date :: "string option"
  q_points_scored :: "int option"
  q_saves :: "int option"
  q_mvp_award :: "bool option"

text \<open>A row of GET /api/players: the player with the two derived averages.\<close>

record player_stats =
  st_player :: player
  avg_points_per_session :: "rat option"
  avg_saves_per_session :: "rat option"

record dashboard =
  total_players :: int
  total_sessions :: int
  total_mvps :: int
  top_mvps :: "(string \<times> int option) list"
  recent_players :: "(string \<times> string \<times> timestamp option) list"
  recent_sessions :: "(date \<times> timestamp option) list"

text \<open>
  Response bodies. \<open>Error\<close> is \<^verbatim>\<open>{error: <text>}\<close> with a text the handler writes,
  \<open>ErrorMessage e\<close> is \<^verbatim>\<open>{error: err.message}\<close>: the raw text of the storage error \<open>e\<close>.
\<close>

datatype reply =
    Error string
  | ErrorMessage pgerr
  | Message string
  | PlayerAdded string string int
  | SessionAdded string int
  | OnePlayer player
  | PlayersWithStats "player_stats list"
  | Stats dashboard

datatype response = Response (status: nat) (body: reply)

subsection \<open>JavaScript truthiness on body fields\<close>

definition truthy_str :: "string option \<Rightarrow> bool" where
  "truthy_str v = (case v of None \<Rightarrow> False | Some s \<Rightarrow> s \<noteq> [])"

definition truthy_num :: "int option \<Rightarrow> bool" where
  "truthy_num v = (case v of None \<Rightarrow> False | Some n \<Rightarrow> n \<noteq> 0)"

definition truthy_bool :: "bool option \<Rightarrow> bool" where
  "truthy_bool v = (case v of None \<Rightarrow> False | Some b \<Rightarrow> b)"

text \<open>The number in a body field that passed the truthiness test.\<close>

definition number :: "int option \<Rightarrow> int" where
  "number v = (case v of None \<Rightarrow> 0 | Some n \<Rightarrow> n)"

text \<open>\<^verbatim>\<open>points_scored || 0\<close> and \<^verbatim>\<open>mvp_award || false\<close>.\<close>

definition or_num :: "int option \<Rightarrow> int \<Rightarrow> int" where
  "or_num v d = (case v of None \<Rightarrow> d | Some n \<Rightarrow> if n \<noteq> 0 then n else d)"

definition or_bool :: "bool option \<Rightarrow> bool \<Rightarrow> bool" where
  "or_bool v d = (case v of None \<Rightarrow> d | Some b \<Rightarrow> if b then b else d)"


section \<open>The handlers over \<^verbatim>\<open>players\<close> (the same text in both revisions)\<close>

subsection \<open>Statements on \<^verbatim>\<open>players\<close>\<close>

text \<open>
  The parameters of an INSERT or UPDATE on \<^verbatim>\<open>players\<close>, converted to the column types.
  A conversion error is raised before the statement touches a row or a sequence.
\<close>

definition bind_player :: "player_body \<Rightarrow> pgerr + player_body" where
  "bind_player b =
     (case int4_in (b_age b) of Inl e \<Rightarrow> Inl e | Inr a \<Rightarrow>
      case varchar 20 (b_player_id b) of Inl e \<Rightarrow> Inl e | Inr pid \<Rightarrow>
      case varchar 100 (b_full_name b) of Inl e \<Rightarrow> Inl e | Inr name \<Rightarrow>
      case varchar 20 (b_phone_number b) of Inl e \<Rightarrow> Inl e | Inr phone \<Rightarrow>
      case varchar 50 (b_instagram_username b) of Inl e \<Rightarrow> Inl e | Inr insta \<Rightarrow>
      case varchar 20 (b_skill_level b) of Inl e \<Rightarrow> Inl e | Inr skill \<Rightarrow>
        Inr \<lparr>b_player_id = pid, b_full_name = name, b_phone_number = phone,
             b_instagram_username = insta, b_age = a, b_skill_level = skill\<rparr>)"

text \<open>CHECK (skill_level IN ('Beginner', 'Intermediate', 'Advanced')): a NULL passes.\<close>

definition skill_level_check :: "string option \<Rightarrow> bool" where
  "skill_level_check v =
     (case v of
        None \<Rightarrow> True
      | Some s \<Rightarrow> s = ''Beginner'' \<or> s = ''Intermediate'' \<or> s = ''Advanced'')"

text \<open>\<^verbatim>\<open>nextval\<close> of a SERIAL column's sequence, given its last value.\<close>

definition nextval :: "int \<Rightarrow> pgerr + int" where
  "nextval cur =
     (if cur < 2147483647 then Inr (cur + 1) else Inl sequence_generator_limit_exceeded)"

text \<open>
  \<^verbatim>\<open>INSERT INTO players (player_id, full_name, phone_number, instagram_username, age,
  skill_level) VALUES ($1, ..., $6) RETURNING id\<close>. The counters take their column
  default 0 and both timestamps CURRENT_TIMESTAMP. The sequence value is consumed
  whether or not the row passes its constraints.
\<close>

definition insert_player ::
  "timestamp \<Rightarrow> player_body \<Rightarrow> 'a players_db_scheme \<Rightarrow> (pgerr + int) \<times> 'a players_db_scheme" where
  "insert_player now b db =
     (case bind_player b of Inl e \<Rightarrow> (Inl e, db) | Inr v \<Rightarrow>
      case nextval (players_id_seq db) of Inl e \<Rightarrow> (Inl e, db) | Inr i \<Rightarrow>
        let db1 = db\<lparr>players_id_seq := i\<rparr> in
        case b_player_id v of None \<Rightarrow> (Inl (not_null_violation ''player_id''), db1) | Some pid \<Rightarrow>
        case b_full_name v of None \<Rightarrow> (Inl (not_null_violation ''full_name''), db1) | Some name \<Rightarrow>
          if \<not> skill_level_check (b_skill_level v)
          then (Inl (check_violation ''players_skill_level_check''), db1)
          else if pid \<in> set (map player_id (players db))
          then (Inl (unique_violation ''players_player_id_key''), db1)
          else (Inr i, db1\<lparr>players := players db @
                 [\<lparr>p_id = i, player_id = pid, full_name = name,
                   phone_number = b_phone_number v,
                   instagram_username = b_instagram_username v,
                   age = b_age v, skill_level = b_skill_level v,
                   form_submissions_count = Some 0, sessions_attended_count = Some 0,
                   mvp_awards_count = Some 0, total_points_scored = Some 0,
                   total_saves = Some 0,
                   p_created_at = Some now, p_updated_at = Some now\<rparr>]\<rparr>))"

text \<open>
  \<^verbatim>\<open>UPDATE players SET player_id = $1, full_name = $2, phone_number = $3,
  instagram_username = $4, age = $5, skill_level = $6, updated_at = CURRENT_TIMESTAMP
  WHERE id = $7\<close>, returning \<^verbatim>\<open>rowCount\<close>. The constraints are checked on the rows the
  statement rewrites, so none is checked when no row has the key.
\<close>

definition update_player ::
  "timestamp \<Rightarrow> player_body \<Rightarrow> int \<Rightarrow> 'a players_db_scheme \<Rightarrow> (pgerr + nat) \<times> 'a players_db_scheme" where
  "update_player now b i db =
     (case bind_player b of Inl e \<Rightarrow> (Inl e, db) | Inr v \<Rightarrow>
      if \<not> int4_ok i then (Inl numeric_value_out_of_range, db)
      else if i \<notin> set (map p_id (players db)) then (Inr 0, db)
      else
        case b_player_id v of None \<Rightarrow> (Inl (not_null_violation ''player_id''), db) | Some pid \<Rightarrow>
        case b_full_name v of None \<Rightarrow> (Inl (not_null_violation ''full_name''), db) | Some name \<Rightarrow>
          if \<not> skill_level_check (b_skill_level v)
          then (Inl (check_violation ''players_skill_level_check''), db)
          else if pid \<in> set (map player_id (filter (\<lambda>p. p_id p \<noteq> i) (players db)))
          then (Inl (unique_violation ''players_player_id_key''), db)
          else (Inr (length (filter (\<lambda>p. p_id p = i) (players db))),
                db\<lparr>players := map (\<lambda>p. if p_id p = i
                       then p\<lparr>player_id := pid, full_name := name,
                              phone_number := b_phone_number v,
                              instagram_username := b_instagram_username v,
                              age := b_age v, skill_level := b_skill_level v,
                              p_updated_at := Some now\<rparr>
                       else p) (players db)\<rparr>))"

text \<open>\<^verbatim>\<open>SELECT * FROM players WHERE id = $1\<close>.\<close>

definition select_player :: "int \<Rightarrow> 'a players_db_scheme \<Rightarrow> pgerr + player list" where
  "select_player i db =
     (if \<not> int4_ok i then Inl numeric_value_out_of_range
      else Inr (filter (\<lambda>p. p_id p = i) (players db)))"

subsection \<open>POST /api/players, PUT /api/players/:id, GET /api/players/:id\<close>

text \<open>The text a template literal gives a body field that passed the truthiness test.\<close>

definition template :: "string option \<Rightarrow> string" where
  "template v = (case v of None \<Rightarrow> ''undefined'' | Some s \<Rightarrow> s)"

definition post_players ::
  "timestamp \<Rightarrow> player_body \<Rightarrow> 'a players_db_scheme \<Rightarrow> response \<times> 'a players_db_scheme" where
  \<open>post_players now b db =
     (if \<not> truthy_str (b_player_id b) \<or> \<not> truthy_str (b_full_name b)
      then (Response 400 (Error ''Player ID and Full Name are required''), db)
      else
        case insert_player now b db of
          (Inr i, db') \<Rightarrow>
            (Response 200 (PlayerAdded ''Player added successfully'' (template (b_player_id b)) i), db')
        | (Inl e, db') \<Rightarrow>
            if code e = ''23505''
            then (Response 400
                    (Error (''Player ID "'' @ template (b_player_id b) @ ''" already exists'')), db')
            else (Response 500 (ErrorMessage e), db'))\<close>

definition put_players ::
  "timestamp \<Rightarrow> int \<Rightarrow> player_body \<Rightarrow> 'a players_db_scheme \<Rightarrow> response \<times> 'a players_db_scheme" where
  "put_players now i b db =
     (case update_player now b i db of
        (Inr rowCount, db') \<Rightarrow>
          if rowCount = 0 then (Response 404 (Error ''Player not found''), db')
          else (Response 200 (Message ''Player updated successfully''), db')
      | (Inl e, db') \<Rightarrow> (Response 500 (ErrorMessage e), db'))"

definition get_player :: "int \<Rightarrow> 'a players_db_scheme \<Rightarrow> response" where
  "get_player i db =
     (case select_player i db of
        Inr rows \<Rightarrow>
          (case rows of
             [] \<Rightarrow> Response 404 (Error ''Player not found'')
           | p # _ \<Rightarrow> Response 200 (OnePlayer p))
      | Inl e \<Rightarrow> Response 500 (ErrorMessage e))"


subsection \<open>GET /api/players: the roster with statistics\<close>

text \<open>
  ORDER BY: an insertion sort under the order \<open>le\<close> of the sort key. Rows with equal keys
  keep their table order (the engine leaves their order open).
\<close>

fun insert_by :: "('a \<Rightarrow> 'a \<Rightarrow> bool) \<Rightarrow> 'a \<Rightarrow> 'a list \<Rightarrow> 'a list" where
  "insert_by le x [] = [x]"
| "insert_by le x (y # ys) = (if le x y then x # y # ys else y # insert_by le x ys)"

definition order_by :: "('a \<Rightarrow> 'a \<Rightarrow> bool) \<Rightarrow> 'a list \<Rightarrow> 'a list" where
  "order_by le xs = foldr (insert_by le) xs []"

text \<open>\<^verbatim>\<open>ROUND(x, 2)\<close> on a numeric: to the nearest hundredth, a tie away from zero.\<close>

definition round2 :: "rat \<Rightarrow> rat" where
  "round2 x =
     (if 0 \<le> x then of_int \<lfloor>x * 100 + 1 / 2\<rfloor> / 100
      else - (of_int \<lfloor>- x * 100 + 1 / 2\<rfloor> / 100))"

text \<open>
  Division of numerics: NULL when an operand is, an error when the divisor is 0. The
  engine's quotient carries at least 16 significant digits, which is enough for
  \<^verbatim>\<open>ROUND(_, 2)\<close> of a quotient of two 32-bit integers to be the rounding of the exact
  quotient, so the quotient is taken exactly.
\<close>

definition numeric_div :: "rat option \<Rightarrow> rat option \<Rightarrow> pgerr + rat option" where
  "numeric_div a b =
     (case (a, b) of
        (Some x, Some y) \<Rightarrow> if y = 0 then Inl division_by_zero else Inr (Some (x / y))
      | _ \<Rightarrow> Inr None)"

text \<open>
  \<^verbatim>\<open>CASE WHEN p.sessions_attended_count > 0
  THEN ROUND((p.<counter> * 1.0 / p.sessions_attended_count), 2) ELSE 0 END\<close>.
  A NULL count is not greater than 0, so it takes the ELSE branch.
\<close>

definition avg_per_session :: "int option \<Rightarrow> int option \<Rightarrow> pgerr + rat option" where
  "avg_per_session counter n =
     (if (case n of None \<Rightarrow> False | Some k \<Rightarrow> 0 < k)
      then
        case numeric_div (map_option (\<lambda>t. of_int t * 1) counter) (map_option of_int n) of
          Inl e \<Rightarrow> Inl e
        | Inr q \<Rightarrow> Inr (map_option round2 q)
      else Inr (Some 0))"

fun stats_rows :: "player list \<Rightarrow> pgerr + player_stats list" where
  "stats_rows [] = Inr []"
| "stats_rows (p # ps) =
     (case avg_per_session (total_points_scored p) (sessions_attended_count p) of
        Inl e \<Rightarrow> Inl e
      | Inr ap \<Rightarrow>
     (case avg_per_session (total_saves p) (sessions_attended_count p) of
        Inl e \<Rightarrow> Inl e
      | Inr av \<Rightarrow>
     (case stats_rows ps of
        Inl e \<Rightarrow> Inl e
      | Inr rs \<Rightarrow>
          Inr (\<lparr>st_player = p, avg_points_per_session = ap, avg_saves_per_session = av\<rparr> # rs))))"

text \<open>
  The handler; \<open>collate\<close> is the database's order on text for \<^verbatim>\<open>ORDER BY full_name\<close>.
  Any storage error, a division by zero among them, is answered with 500.
\<close>

definition get_players :: "(string \<Rightarrow> string \<Rightarrow> bool) \<Rightarrow> 'a players_db_scheme \<Rightarrow> response" where
  "get_players collate db =
     (case stats_rows (order_by (\<lambda>p q. collate (full_name p) (full_name q)) (players db)) of
        Inr rows \<Rightarrow> Response 200 (PlayersWithStats rows)
      | Inl e \<Rightarrow> Response 500 (Error ''Failed to fetch players with stats''))"

section \<open>The later revision: sessions and per-session statistics\<close>

subsection \<open>Startup and POST /api/repair-database\<close>

text \<open>
  \<^verbatim>\<open>DROP TABLE IF EXISTS player_sessions CASCADE\<close> followed by \<^verbatim>\<open>CREATE TABLE\<close>: the table
  is empty afterwards and its SERIAL sequence is new. \<^verbatim>\<open>initializeDatabase\<close> runs the
  same two statements at every start of the process, between CREATE TABLE IF NOT EXISTS
  statements that leave existing tables as they are.
\<close>

definition recreate_player_sessions :: "db \<Rightarrow> db" where
  "recreate_player_sessions db = db\<lparr>player_sessions := [], player_sessions_id_seq := 0\<rparr>"

definition initializeDatabase :: "db \<Rightarrow> db" where
  "initializeDatabase db = recreate_player_sessions db"

definition post_repair_database :: "db \<Rightarrow> response \<times> db" where
  "post_repair_database db =
     (Response 200 (Message ''Database repaired successfully''), recreate_player_sessions db)"

subsection \<open>DELETE /api/players/:id\<close>

text \<open>
  \<^verbatim>\<open>DELETE FROM players WHERE id = $1\<close>, returning \<^verbatim>\<open>rowCount\<close>. The rows of
  \<^verbatim>\<open>player_sessions\<close> that reference a deleted player go with it
  (\<^verbatim>\<open>REFERENCES players(id) ON DELETE CASCADE\<close>).
\<close>

definition delete_from_players :: "int \<Rightarrow> db \<Rightarrow> (pgerr + nat) \<times> db" where
  "delete_from_players i db =
     (if \<not> int4_ok i then (Inl numeric_value_out_of_range, db)
      else if i \<notin> set (map p_id (players db)) then (Inr 0, db)
      else (Inr (length (filter (\<lambda>p. p_id p = i) (players db))),
            db\<lparr>players := filter (\<lambda>p. p_id p \<noteq> i) (players db),
               player_sessions := filter (\<lambda>r. ps_player_id r \<noteq> i) (player_sessions db)\<rparr>))"

definition delete_players :: "int \<Rightarrow> db \<Rightarrow> response \<times> db" where
  "delete_players i db =
     (case delete_from_players i db of
        (Inr rowCount, db') \<Rightarrow>
          if rowCount = 0 then (Response 404 (Error ''Player not found''), db')
          else (Response 200 (Message ''Player deleted successfully''), db')
      | (Inl e, db') \<Rightarrow> (Response 500 (ErrorMessage e), db'))"

subsection \<open>POST /api/sessions: a session is a date\<close>

text \<open>
  \<^verbatim>\<open>INSERT INTO sessions (session_date) VALUES ($1) RETURNING id\<close>, with
  \<^verbatim>\<open>session_date DATE UNIQUE NOT NULL\<close>. \<open>date_in\<close> is the engine's conversion of a text
  to a DATE (\<open>None\<close>: not a date); two texts of one date are the same date.
\<close>

definition insert_session ::
  "(string \<Rightarrow> date option) \<Rightarrow> timestamp \<Rightarrow> string \<Rightarrow> db \<Rightarrow> (pgerr + int) \<times> db" where
  "insert_session date_in now s db =
     (case date_in s of None \<Rightarrow> (Inl invalid_datetime_format, db) | Some d \<Rightarrow>
      case nextval (sessions_id_seq db) of Inl e \<Rightarrow> (Inl e, db) | Inr i \<Rightarrow>
        let db1 = db\<lparr>sessions_id_seq := i\<rparr> in
        if d \<in> set (map session_date (sessions db))
        then (Inl (unique_violation ''sessions_session_date_key''), db1)
        else (Inr i, db1\<lparr>sessions := sessions db @
               [\<lparr>s_id = i, session_date = d, s_created_at = Some now\<rparr>]\<rparr>))"

definition post_sessions ::
  "(string \<Rightarrow> date option) \<Rightarrow> timestamp \<Rightarrow> session_body \<Rightarrow> db \<Rightarrow> response \<times> db" where
  \<open>post_sessions date_in now b db =
     (if \<not> truthy_str (sb_session_date b)
      then (Response 400 (Error ''Session date is required''), db)
      else
        case insert_session date_in now (template (sb_session_date b)) db of
          (Inr i, db') \<Rightarrow> (Response 200 (SessionAdded ''Session added successfully'' i), db')
        | (Inl e, db') \<Rightarrow>
            if code e = ''23505''
            then (Response 400
                    (Error (''Session for date "'' @ template (sb_session_date b)
                            @ ''" already exists'')), db')
            else (Response 500 (ErrorMessage e), db'))\<close>

subsection \<open>POST /api/player-sessions: record session statistics\<close>

text \<open>
  The aggregates of the UPDATE's subqueries over the rows of one player:
  \<^verbatim>\<open>COALESCE((SELECT SUM(points_scored) ...), 0)\<close> (SUM skips NULLs and is NULL over no
  value, which COALESCE turns into 0), the same for \<^verbatim>\<open>saves\<close>, and the two counts.
\<close>

definition rows_of :: "int \<Rightarrow> player_session list \<Rightarrow> player_session list" where
  "rows_of i rows = filter (\<lambda>r. ps_player_id r = i) rows"

definition sum_points_scored :: "int \<Rightarrow> player_session list \<Rightarrow> int" where
  "sum_points_scored i rows =
     sum_list (map (\<lambda>r. case points_scored r of None \<Rightarrow> 0 | Some n \<Rightarrow> n) (rows_of i rows))"

definition sum_saves :: "int \<Rightarrow> player_session list \<Rightarrow> int" where
  "sum_saves i rows =
     sum_list (map (\<lambda>r. case saves r of None \<Rightarrow> 0 | Some n \<Rightarrow> n) (rows_of i rows))"

definition count_mvp :: "int \<Rightarrow> player_session list \<Rightarrow> int" where
  "count_mvp i rows = int (length (filter (\<lambda>r. mvp_award r = Some True) (rows_of i rows)))"

definition count_rows :: "int \<Rightarrow> player_session list \<Rightarrow> int" where
  "count_rows i rows = int (length (rows_of i rows))"

text \<open>
  \<^verbatim>\<open>INSERT INTO player_sessions (player_id, session_id, points_scored, saves, mvp_award)
  VALUES ($1, ..., $5) ON CONFLICT (player_id, session_id) DO UPDATE SET points_scored =
  EXCLUDED.points_scored, saves = EXCLUDED.saves, mvp_award = EXCLUDED.mvp_award\<close>.
  A new row must reference an existing player and an existing session.
\<close>

definition upsert_player_session ::
  "timestamp \<Rightarrow> int \<Rightarrow> int \<Rightarrow> int \<Rightarrow> int \<Rightarrow> bool \<Rightarrow> db \<Rightarrow> (pgerr + unit) \<times> db" where
  "upsert_player_session now pid sid pts sv mvp db =
     (if \<not> (int4_ok pid \<and> int4_ok sid \<and> int4_ok pts \<and> int4_ok sv)
      then (Inl numeric_value_out_of_range, db)
      else
        case nextval (player_sessions_id_seq db) of Inl e \<Rightarrow> (Inl e, db) | Inr i \<Rightarrow>
          let db1 = db\<lparr>player_sessions_id_seq := i\<rparr> in
          if (pid, sid) \<in> set (map (\<lambda>r. (ps_player_id r, ps_session_id r)) (player_sessions db))
          then (Inr (),
                db1\<lparr>player_sessions := map (\<lambda>r.
                       if ps_player_id r = pid \<and> ps_session_id r = sid
                       then r\<lparr>points_scored := Some pts, saves := Some sv, mvp_award := Some mvp\<rparr>
                       else r) (player_sessions db)\<rparr>)
          else if pid \<notin> set (map p_id (players db))
          then (Inl (foreign_key_violation ''player_sessions_player_id_fkey''), db1)
          else if sid \<notin> set (map s_id (sessions db))
          then (Inl (foreign_key_violation ''player_sessions_session_id_fkey''), db1)
          else (Inr (),
                db1\<lparr>player_sessions := player_sessions db @
                       [\<lparr>ps_id = i, ps_player_id = pid, ps_session_id = sid,
                         points_scored = Some pts, saves = Some sv, mvp_award = Some mvp,
                         attendance_status = Some ''Present'',
                         ps_created_at = Some now\<rparr>]\<rparr>))"

text \<open>
  \<^verbatim>\<open>UPDATE players SET total_points_scored = COALESCE((SELECT SUM(points_scored) FROM
  player_sessions WHERE player_id = $1), 0), total_saves = ..., mvp_awards_count = ...,
  sessions_attended_count = ..., updated_at = CURRENT_TIMESTAMP WHERE id = $1\<close>.
  The aggregates are 64 bits wide; storing one that does not fit INTEGER is an error.
\<close>

definition update_player_stats :: "timestamp \<Rightarrow> int \<Rightarrow> db \<Rightarrow> (pgerr + unit) \<times> db" where
  "update_player_stats now pid db =
     (if \<not> int4_ok pid then (Inl numeric_value_out_of_range, db)
      else if pid \<notin> set (map p_id (players db)) then (Inr (), db)
      else if \<not> (int4_ok (sum_points_scored pid (player_sessions db))
                \<and> int4_ok (sum_saves pid (player_sessions db))
                \<and> int4_ok (count_mvp pid (player_sessions db))
                \<and> int4_ok (count_rows pid (player_sessions db)))
      then (Inl numeric_value_out_of_range, db)
      else (Inr (),
            db\<lparr>players := map (\<lambda>p. if p_id p = pid
                   then p\<lparr>total_points_scored := Some (sum_points_scored pid (player_sessions db)),
                          total_saves := Some (sum_saves pid (player_sessions db)),
                          mvp_awards_count := Some (count_mvp pid (player_sessions db)),
                          sessions_attended_count := Some (count_rows pid (player_sessions db)),
                          p_updated_at := Some now\<rparr>
                   else p) (players db)\<rparr>))"

text \<open>
  ROLLBACK gives back the tables as they were at BEGIN. A sequence is not transactional:
  the values the transaction drew from it stay drawn.
\<close>

definition rollback :: "db \<Rightarrow> db \<Rightarrow> db" where
  "rollback at_begin cur = at_begin\<lparr>player_sessions_id_seq := player_sessions_id_seq cur\<rparr>"

definition post_player_sessions :: "timestamp \<Rightarrow> stats_body \<Rightarrow> db \<Rightarrow> response \<times> db" where
  "post_player_sessions now b db =
     (if \<not> truthy_num (r_player_id b) \<or> \<not> truthy_num (r_session_id b)
      then (Response 400 (Error ''Player ID and Session ID are required''), db)
      else
        case upsert_player_session now (number (r_player_id b)) (number (r_session_id b))
               (or_num (r_points_scored b) 0) (or_num (r_saves b) 0)
               (or_bool (r_mvp_award b) False) db of
          (Inl e, db1) \<Rightarrow> (Response 500 (ErrorMessage e), rollback db db1)
        | (Inr u, db1) \<Rightarrow>
            (case update_player_stats now (number (r_player_id b)) db1 of
               (Inl e, db2) \<Rightarrow> (Response 500 (ErrorMessage e), rollback db db2)
             | (Inr u, db2) \<Rightarrow>
                 (Response 200 (Message ''Player session statistics added successfully''), db2)))"


subsection \<open>GET /api/dashboard\<close>

text \<open>ORDER BY ... DESC on a nullable key: NULLs first, then the values downwards.\<close>

definition desc :: "'a::linorder option \<Rightarrow> 'a option \<Rightarrow> bool" where
  "desc a b =
     (case a of
        None \<Rightarrow> True
      | Some x \<Rightarrow> (case b of None \<Rightarrow> False | Some y \<Rightarrow> y \<le> x))"

definition dashboard_stats :: "db \<Rightarrow> dashboard" where
  "dashboard_stats db =
     \<lparr>total_players = int (length (players db)),
      total_sessions = int (length (sessions db)),
      total_mvps = int (length (filter (\<lambda>r. mvp_award r = Some True) (player_sessions db))),
      top_mvps = map (\<lambda>p. (full_name p, mvp_awards_count p))
        (take 5 (order_by (\<lambda>p q. desc (mvp_awards_count p) (mvp_awards_count q))
          (filter (\<lambda>p. case mvp_awards_count p of None \<Rightarrow> False | Some n \<Rightarrow> 0 < n) (players db)))),
      recent_players = map (\<lambda>p. (full_name p, player_id p, p_created_at p))
        (take 5 (order_by (\<lambda>p q. desc (p_created_at p) (p_created_at q)) (players db))),
      recent_sessions = map (\<lambda>s. (session_date s, s_created_at s))
        (take 5 (order_by (\<lambda>s t. desc (Some (session_date s)) (Some (session_date t)))
          (sessions db)))\<rparr>"

definition get_dashboard :: "db \<Rightarrow> response" where
  "get_dashboard db = Response 200 (Stats (dashboard_stats db))"

subsection \<open>Sequences of requests\<close>

text \<open>
  The requests that write, and a restart of the process (which runs
  \<^verbatim>\<open>initializeDatabase\<close>). The timestamp is the CURRENT_TIMESTAMP the request sees.
\<close>

datatype request =
    POST_players timestamp player_body
  | PUT_players timestamp int player_body
  | DELETE_players int
  | POST_sessions timestamp session_body
  | POST_player_sessions timestamp stats_body
  | POST_repair_database
  | Restart

fun serve :: "(string \<Rightarrow> date option) \<Rightarrow> request \<Rightarrow> db \<Rightarrow> db" where
  "serve date_in (POST_players now b) db = snd (post_players now b db)"
| "serve date_in (PUT_players now i b) db = snd (put_players now i b db)"
| "serve date_in (DELETE_players i) db = snd (delete_players i db)"
| "serve date_in (POST_sessions now b) db = snd (post_sessions date_in now b db)"
| "serve date_in (POST_player_sessions now b) db = snd (post_player_sessions now b db)"
| "serve date_in POST_repair_database db = snd (post_repair_database db)"
| "serve date_in Restart db = initializeDatabase db"

fun run :: "(string \<Rightarrow> date option) \<Rightarrow> request list \<Rightarrow> db \<Rightarrow> db" where
  "run date_in [] db = db"
| "run date_in (q # qs) db = run date_in qs (serve date_in q db)"

text \<open>The requests that drop the recorded statistics.\<close>

fun drops_statistics :: "request \<Rightarrow> bool" where
  "drops_statistics POST_repair_database = True"
| "drops_statistics Restart = True"
| "drops_statistics q = False"

section \<open>The earlier revision: statistics with the date inline\<close>

text \<open>
  \<^verbatim>\<open>INSERT INTO player_sessions (player_id, session_date, points_scored, saves, mvp_award)
  VALUES ($1, ..., $5)\<close>. A parameter that is absent from the body is sent as NULL and
  stored as NULL: the column default applies only to a column the statement leaves out.
\<close>

definition insert_player_session_v1 ::
  "(string \<Rightarrow> date option) \<Rightarrow> timestamp \<Rightarrow> int \<Rightarrow> string \<Rightarrow> int option \<Rightarrow> int option \<Rightarrow> bool option
     \<Rightarrow> db_v1 \<Rightarrow> (pgerr + unit) \<times> db_v1" where
  "insert_player_session_v1 date_in now pid s pts sv mvp db =
     (if \<not> int4_ok pid then (Inl numeric_value_out_of_range, db) else
      case date_in s of None \<Rightarrow> (Inl invalid_datetime_format, db) | Some d \<Rightarrow>
      case int4_in pts of Inl e \<Rightarrow> (Inl e, db) | Inr pts' \<Rightarrow>
      case int4_in sv of Inl e \<Rightarrow> (Inl e, db) | Inr sv' \<Rightarrow>
      case nextval (player_sessions_v1_id_seq db) of Inl e \<Rightarrow> (Inl e, db) | Inr i \<Rightarrow>
        let db1 = db\<lparr>player_sessions_v1_id_seq := i\<rparr> in
        if pid \<notin> set (map p_id (players db))
        then (Inl (foreign_key_violation ''player_sessions_player_id_fkey''), db1)
        else (Inr (),
              db1\<lparr>player_sessions_v1 := player_sessions_v1 db @
                     [\<lparr>ps1_id = i, ps1_player_id = pid, ps1_session_date = d,
                       ps1_points_scored = pts', ps1_saves = sv', ps1_mvp_award = mvp,
                       ps1_attendance_status = Some ''Present'',
                       ps1_created_at = Some now\<rparr>]\<rparr>))"

text \<open>INTEGER addition: NULL when an operand is NULL.\<close>

definition plus_null :: "int option \<Rightarrow> int option \<Rightarrow> int option" where
  "plus_null a b =
     (case a of None \<Rightarrow> None | Some x \<Rightarrow> (case b of None \<Rightarrow> None | Some y \<Rightarrow> Some (x + y)))"

definition int4_null_ok :: "int option \<Rightarrow> bool" where
  "int4_null_ok v = (case v of None \<Rightarrow> True | Some n \<Rightarrow> int4_ok n)"

text \<open>
  \<^verbatim>\<open>UPDATE players SET total_points_scored = total_points_scored + $1, total_saves =
  total_saves + $2, mvp_awards_count = mvp_awards_count + $3, sessions_attended_count =
  sessions_attended_count + 1, updated_at = CURRENT_TIMESTAMP WHERE id = $4\<close>.
  A sum that does not fit INTEGER is an error.
\<close>

definition incremented :: "timestamp \<Rightarrow> int option \<Rightarrow> int option \<Rightarrow> int \<Rightarrow> player \<Rightarrow> player" where
  "incremented now pts sv mvp p =
     p\<lparr>total_points_scored := plus_null (total_points_scored p) pts,
       total_saves := plus_null (total_saves p) sv,
       mvp_awards_count := plus_null (mvp_awards_count p) (Some mvp),
       sessions_attended_count := plus_null (sessions_attended_count p) (Some 1),
       p_updated_at := Some now\<rparr>"

definition counters_fit :: "player \<Rightarrow> bool" where
  "counters_fit p =
     (int4_null_ok (total_points_scored p) \<and> int4_null_ok (total_saves p)
      \<and> int4_null_ok (mvp_awards_count p) \<and> int4_null_ok (sessions_attended_count p))"

definition increment_player_stats_v1 ::
  "timestamp \<Rightarrow> int option \<Rightarrow> int option \<Rightarrow> int \<Rightarrow> int \<Rightarrow> db_v1 \<Rightarrow> (pgerr + unit) \<times> db_v1" where
  "increment_player_stats_v1 now pts sv mvp pid db =
     (case int4_in pts of Inl e \<Rightarrow> (Inl e, db) | Inr pts' \<Rightarrow>
      case int4_in sv of Inl e \<Rightarrow> (Inl e, db) | Inr sv' \<Rightarrow>
      if \<not> int4_ok pid then (Inl numeric_value_out_of_range, db)
      else if \<not> list_all (\<lambda>p. counters_fit (incremented now pts' sv' mvp p))
                  (filter (\<lambda>p. p_id p = pid) (players db))
      then (Inl numeric_value_out_of_range, db)
      else (Inr (),
            db\<lparr>players := map (\<lambda>p. if p_id p = pid then incremented now pts' sv' mvp p else p)
                   (players db)\<rparr>))"

definition rollback_v1 :: "db_v1 \<Rightarrow> db_v1 \<Rightarrow> db_v1" where
  "rollback_v1 at_begin cur =
     at_begin\<lparr>player_sessions_v1_id_seq := player_sessions_v1_id_seq cur\<rparr>"

text \<open>POST /api/sessions of the earlier revision; \<^verbatim>\<open>mvp_award ? 1 : 0\<close> is the increment.\<close>

definition post_sessions_v1 ::
  "(string \<Rightarrow> date option) \<Rightarrow> timestamp \<Rightarrow> stats_body_v1 \<Rightarrow> db_v1 \<Rightarrow> response \<times> db_v1" where
  "post_sessions_v1 date_in now b db =
     (if \<not> truthy_num (q_player_id b) \<or> \<not> truthy_str (q_session_date b)
      then (Response 400 (Error ''Player ID and Session Date are required''), db)
      else
        case insert_player_session_v1 date_in now (number (q_player_id b))
               (template (q_session_date b)) (q_points_scored b) (q_saves b) (q_mvp_award b) db of
          (Inl e, db1) \<Rightarrow> (Response 500 (ErrorMessage e), rollback_v1 db db1)
        | (Inr u, db1) \<Rightarrow>
            (case increment_player_stats_v1 now (q_points_scored b) (q_saves b)
                    (if truthy_bool (q_mvp_award b) then 1 else 0) (number (q_player_id b)) db1 of
               (Inl e, db2) \<Rightarrow> (Response 500 (ErrorMessage e), rollback_v1 db db2)
             | (Inr u, db2) \<Rightarrow>
                 (Response 200 (Message ''Session statistics added successfully''), db2)))"

text \<open>
  POST /api/repair-database of the earlier revision:
  \<^verbatim>\<open>ALTER TABLE players ADD COLUMN IF NOT EXISTS age INTEGER\<close>, on a table that has the
  column.
\<close>

definition post_repair_database_v1 :: "db_v1 \<Rightarrow> response \<times> db_v1" where
  "post_repair_database_v1 db = (Response 200 (Message ''Database repaired successfully''), db)"

section \<open>Properties\<close>

subsection \<open>Notions the statements use\<close>

text \<open>
  The values of a player body fit their columns and pass the skill-level CHECK: the
  row is one the table would take but for its keys.
\<close>

definition player_row_ok :: "player_body \<Rightarrow> bool" where
  "player_row_ok b =
     (case bind_player b of Inl e \<Rightarrow> False | Inr v \<Rightarrow> skill_level_check (b_skill_level v))"

text \<open>Sample data for the concrete instances below.\<close>

definition ann :: player_body where
  "ann = \<lparr>b_player_id = Some ''P1'', b_full_name = Some ''Ann'', b_phone_number = None,
          b_instagram_username = None, b_age = None, b_skill_level = None\<rparr>"


text \<open>A sample conversion of texts to dates (days since 1970-01-01).\<close>

definition sample_date_in :: "string \<Rightarrow> date option" where
  "sample_date_in s =
     (if s = ''2024-03-01'' then Some 19783
      else if s = ''2024-03-08'' then Some 19790
      else None)"

text \<open>
  The scenario of the specification: a session on 2024-03-01, the player P1 (Ann), and
  Ann's statistics for that session (10 points, 2 saves, MVP).
\<close>

definition ann_stats :: stats_body where
  "ann_stats = \<lparr>r_player_id = Some 1, r_session_id = Some 1, r_points_scored = Some 10,
                r_saves = Some 2, r_mvp_award = Some True\<rparr>"

definition scenario :: "request list" where
  "scenario =
     [POST_sessions 1 \<lparr>sb_session_date = Some ''2024-03-01''\<rparr>,
      POST_players 2 ann,
      POST_player_sessions 3 ann_stats]"

definition after_scenario :: db where
  "after_scenario = run sample_date_in scenario empty_db"

definition bea :: player_body where
  "bea = \<lparr>b_player_id = Some ''P2'', b_full_name = Some ''Bea'', b_phone_number = None,
          b_instagram_username = None, b_age = Some 30, b_skill_level = Some ''Advanced''\<rparr>"

definition two_players :: db where
  "two_players = snd (post_players 4 bea after_scenario)"

text \<open>A sample collation: bytewise comparison of texts.\<close>

fun bytewise :: "string \<Rightarrow> string \<Rightarrow> bool" where
  "bytewise [] ys = True"
| "bytewise (x # xs) [] = False"
| "bytewise (x # xs) (y # ys) =
     ((of_char x :: nat) < of_char y \<or> (x = y \<and> bytewise xs ys))"

text \<open>
  The stored counters of the player with key \<open>i\<close> equal the aggregates over that player's
  current rows of \<^verbatim>\<open>player_sessions\<close>: the sum of points, the sum of saves, the number of
  rows with the MVP flag true and the number of rows.
\<close>

definition counters_match :: "int \<Rightarrow> db \<Rightarrow> bool" where
  "counters_match i db =
     (\<forall>p \<in> set (players db). p_id p = i \<longrightarrow>
        total_points_scored p = Some (sum_points_scored i (player_sessions db))
      \<and> total_saves p = Some (sum_saves i (player_sessions db))
      \<and> mvp_awards_count p = Some (count_mvp i (player_sessions db))
      \<and> sessions_attended_count p = Some (count_rows i (player_sessions db)))"

text \<open>The key of a player with the four running counters.\<close>

definition stats_of :: "player \<Rightarrow> int \<times> int option \<times> int option \<times> int option \<times> int option" where
  "stats_of p =
     (p_id p, total_points_scored p, total_saves p, mvp_awards_count p,
      sessions_attended_count p)"

text \<open>
  The constraints of the schema that the statements below rely on: \<^verbatim>\<open>players.id\<close> is a
  primary key drawn from its sequence, \<^verbatim>\<open>player_sessions.player_id\<close> references an
  existing player, and (player_id, session_id) is unique in \<^verbatim>\<open>player_sessions\<close>.
\<close>

definition schema_ok :: "db \<Rightarrow> bool" where
  "schema_ok db =
     (distinct (map p_id (players db))
      \<and> (\<forall>j \<in> set (map p_id (players db)). j \<le> players_id_seq db)
      \<and> (\<forall>r \<in> set (player_sessions db). ps_player_id r \<in> set (map p_id (players db)))
      \<and> distinct (map (\<lambda>r. (ps_player_id r, ps_session_id r)) (player_sessions db)))"

definition consistent :: "db \<Rightarrow> bool" where
  "consistent db = (schema_ok db \<and> (\<forall>p \<in> set (players db). counters_match (p_id p) db))"

text \<open>The sum of the players' stored MVP counters (a NULL counter adds nothing).\<close>

definition sum_of_mvp_counters :: "db \<Rightarrow> int" where
  "sum_of_mvp_counters db =
     sum_list (map (\<lambda>p. case mvp_awards_count p of None \<Rightarrow> 0 | Some n \<Rightarrow> n) (players db))"

text \<open>The rows recorded for one (player, session) pair, in either revision.\<close>

definition rows_of_pair :: "int \<Rightarrow> int \<Rightarrow> db \<Rightarrow> player_session list" where
  "rows_of_pair pid sid db =
     filter (\<lambda>r. ps_player_id r = pid \<and> ps_session_id r = sid) (player_sessions db)"

definition rows_of_pair_v1 :: "int \<Rightarrow> date \<Rightarrow> db_v1 \<Rightarrow> player_session_v1 list" where
  "rows_of_pair_v1 pid d db =
     filter (\<lambda>r. ps1_player_id r = pid \<and> ps1_session_date r = d) (player_sessions_v1 db)"

text \<open>Two states hold the same rows in every table (their sequences may differ).\<close>

definition same_tables :: "db \<Rightarrow> db \<Rightarrow> bool" where
  "same_tables db db' =
     (players db' = players db \<and> sessions db' = sessions db
      \<and> player_sessions db' = player_sessions db)"

definition same_tables_v1 :: "db_v1 \<Rightarrow> db_v1 \<Rightarrow> bool" where
  "same_tables_v1 db db' =
     (players db' = players db \<and> player_sessions_v1 db' = player_sessions_v1 db)"

text \<open>The scenario's state after POST /api/repair-database.\<close>

definition repaired :: db where
  "repaired = snd (post_repair_database after_scenario)"

text \<open>
  Two sessions and Ann with the largest INTEGER as her points in the first one; one more
  point in the second session does not fit the counter.
\<close>

definition full_counter :: db where
  "full_counter =
     run sample_date_in
       [POST_sessions 1 \<lparr>sb_session_date = Some ''2024-03-01''\<rparr>,
        POST_sessions 1 \<lparr>sb_session_date = Some ''2024-03-08''\<rparr>,
        POST_players 2 ann,
        POST_player_sessions 3 (ann_stats\<lparr>r_points_scored := Some 2147483647\<rparr>)]
       empty_db"

definition one_more_point :: stats_body where
  "one_more_point = \<lparr>r_player_id = Some 1, r_session_id = Some 2, r_points_scored = Some 1,
                     r_saves = None, r_mvp_award = None\<rparr>"

text \<open>The earlier revision: Ann, her statistics for 2024-03-01, and a body without statistics.\<close>

definition ann_v1 :: db_v1 where
  "ann_v1 = snd (post_players 2 ann empty_db_v1)"

definition ann_stats_v1 :: stats_body_v1 where
  "ann_stats_v1 = \<lparr>q_player_id = Some 1, q_session_date = Some ''2024-03-01'',
                   q_points_scored = Some 10, q_saves = Some 2, q_mvp_award = Some True\<rparr>"

definition attendance_only_v1 :: stats_body_v1 where
  "attendance_only_v1 = \<lparr>q_player_id = Some 1, q_session_date = Some ''2024-03-08'',
                         q_points_scored = None, q_saves = None, q_mvp_award = None\<rparr>"

definition recorded_v1 :: db_v1 where
  "recorded_v1 = snd (post_sessions_v1 sample_date_in 3 ann_stats_v1 ann_v1)"

text \<open>The sum of points over a player's rows in the earlier revision (SUM skips NULLs).\<close>

definition sum_points_scored_v1 :: "int \<Rightarrow> player_session_v1 list \<Rightarrow> int" where
  "sum_points_scored_v1 i rows =
     sum_list (map (\<lambda>r. case ps1_points_scored r of None \<Rightarrow> 0 | Some n \<Rightarrow> n)
       (filter (\<lambda>r. ps1_player_id r = i) rows))"

text \<open>A sequence of record-statistics calls of the later revision, each with its timestamp.\<close>

fun record_all :: "(timestamp \<times> stats_body) list \<Rightarrow> db \<Rightarrow> db" where
  "record_all [] db = db"
| "record_all (c # cs) db = record_all cs (snd (post_player_sessions (fst c) (snd c) db))"

subsection \<open>Evaluation of the sample data\<close>

lemmas eval_defs = post_players_def ann_def empty_db_def truthy_str_def truthy_num_def truthy_bool_def
  insert_player_def bind_player_def int4_in_def int4_ok_def varchar_def nextval_def skill_level_check_def Let_def
  player_row_ok_def template_def number_def or_num_def or_bool_def
  post_sessions_def insert_session_def sample_date_in_def
  post_player_sessions_def upsert_player_session_def update_player_stats_def rollback_def
  sum_points_scored_def sum_saves_def count_mvp_def count_rows_def rows_of_def
  ann_stats_def


lemma after_scenario_eq:
  "after_scenario =
     \<lparr>players = [\<lparr>p_id = 1, player_id = ''P1'', full_name = ''Ann'', phone_number = None,
        instagram_username = None, age = None, skill_level = None,
        form_submissions_count = Some 0, sessions_attended_count = Some 1,
        mvp_awards_count = Some 1, total_points_scored = Some 10, total_saves = Some 2,
        p_created_at = Some 2, p_updated_at = Some 3\<rparr>],
      players_id_seq = 1,
      sessions = [\<lparr>s_id = 1, session_date = 19783, s_created_at = Some 1\<rparr>],
      sessions_id_seq = 1,
      player_sessions = [\<lparr>ps_id = 1, ps_player_id = 1, ps_session_id = 1,
        points_scored = Some 10, saves = Some 2, mvp_award = Some True,
        attendance_status = Some ''Present'', ps_created_at = Some 3\<rparr>],
      player_sessions_id_seq = 1\<rparr>"
  by (simp add: after_scenario_def scenario_def eval_defs)

subsection \<open>Creating a player\<close>

lemma varchar_short: "length s \<le> n \<Longrightarrow> varchar n (Some s) = Inr (Some s)"
  by (simp add: varchar_def)

lemma varchar_None_iff: "varchar n v = Inr w \<Longrightarrow> (w = None) = (v = None)"
  by (auto simp: varchar_def split: option.splits if_splits)

lemma bind_player_fields:
  "bind_player b = Inr v \<Longrightarrow>
     varchar 20 (b_player_id b) = Inr (b_player_id v)
     \<and> varchar 100 (b_full_name b) = Inr (b_full_name v)"
  by (auto simp: bind_player_def split: sum.splits)

lemma bind_player_id:
  "bind_player b = Inr v \<Longrightarrow> b_player_id b = Some x \<Longrightarrow> length x \<le> 20 \<Longrightarrow> b_player_id v = Some x"
  using bind_player_fields[of b v] by (simp add: varchar_short)








subsection \<open>Updating a player\<close>

lemma two_players_eq:
  "two_players =
     \<lparr>players = [\<lparr>p_id = 1, player_id = ''P1'', full_name = ''Ann'', phone_number = None,
        instagram_username = None, age = None, skill_level = None,
        form_submissions_count = Some 0, sessions_attended_count = Some 1,
        mvp_awards_count = Some 1, total_points_scored = Some 10, total_saves = Some 2,
        p_created_at = Some 2, p_updated_at = Some 3\<rparr>,
        \<lparr>p_id = 2, player_id = ''P2'', full_name = ''Bea'', phone_number = None,
        instagram_username = None, age = Some 30, skill_level = Some ''Advanced'',
        form_submissions_count = Some 0, sessions_attended_count = Some 0,
        mvp_awards_count = Some 0, total_points_scored = Some 0, total_saves = Some 0,
        p_created_at = Some 4, p_updated_at = Some 4\<rparr>],
      players_id_seq = 2,
      sessions = [\<lparr>s_id = 1, session_date = 19783, s_created_at = Some 1\<rparr>],
      sessions_id_seq = 1,
      player_sessions = [\<lparr>ps_id = 1, ps_player_id = 1, ps_session_id = 1,
        points_scored = Some 10, saves = Some 2, mvp_award = Some True,
        attendance_status = Some ''Present'', ps_created_at = Some 3\<rparr>],
      player_sessions_id_seq = 1\<rparr>"
  by (simp add: two_players_def after_scenario_eq bea_def eval_defs)

lemma bind_player_null:
  "bind_player b = Inr v \<Longrightarrow> (b_player_id v = None) = (b_player_id b = None) \<and> (b_full_name v = None) = (b_full_name b = None)"
  using bind_player_fields[of b v] varchar_None_iff[of 100 "b_full_name b" "b_full_name v"]
    varchar_None_iff[of 20 "b_player_id b" "b_player_id v"] by simp

lemma bind_player_full_name:
  "bind_player b = Inr v \<Longrightarrow> b_full_name b = Some x \<Longrightarrow> length x \<le> 100 \<Longrightarrow> b_full_name v = Some x"
  using bind_player_fields[of b v] by (simp add: varchar_short)

lemma update_player_status: "status (fst (put_players now i b db)) \<in> {200, 404, 500}"
  by (cases "update_player now b i db"; cases "fst (update_player now b i db)")
     (auto simp: put_players_def)

text \<open>
  C10. PUT /api/players/:id classifies no failure as a validation failure or a conflict:
  it never answers 400. On an existing player, with values that fit their columns, an
  external identifier held by another player is answered 500 with the storage error's
  own text (unique violation), and so is a null identifier or name (not-null
  violation). Presence is not validated: empty texts, which POST /api/players refuses
  with 400, are stored.
\<close>

theorem put_players_unclassified:
  "status (fst (put_players now i b db)) \<noteq> 400
   \<and> (int4_ok i \<and> i \<in> set (map p_id (players db)) \<and> player_row_ok b
        \<and> b_player_id b = Some x \<and> length x \<le> 20 \<and> b_full_name b \<noteq> None
        \<and> x \<in> set (map player_id (filter (\<lambda>p. p_id p \<noteq> i) (players db))) \<longrightarrow>
        put_players now i b db
          = (Response 500 (ErrorMessage (unique_violation ''players_player_id_key'')), db))
   \<and> (int4_ok i \<and> i \<in> set (map p_id (players db)) \<and> player_row_ok b
        \<and> (b_player_id b = None \<or> b_full_name b = None) \<longrightarrow>
        (\<exists>c. put_players now i b db = (Response 500 (ErrorMessage (not_null_violation c)), db)))
   \<and> (int4_ok i \<and> i \<in> set (map p_id (players db)) \<and> player_row_ok b
        \<and> b_player_id b = Some [] \<and> b_full_name b = Some []
        \<and> [] \<notin> set (map player_id (filter (\<lambda>p. p_id p \<noteq> i) (players db))) \<longrightarrow>
        fst (put_players now i b db) = Response 200 (Message ''Player updated successfully''))"
proof (intro conjI impI; (elim conjE)?)
  show "status (fst (put_players now i b db)) \<noteq> 400"
    using update_player_status[of now i b db] by auto
next
  assume a: "int4_ok i" "i \<in> set (map p_id (players db))" "player_row_ok b"
    "b_player_id b = Some x" "length x \<le> 20" "b_full_name b \<noteq> None"
    "x \<in> set (map player_id (filter (\<lambda>p. p_id p \<noteq> i) (players db)))"
  then obtain v where v: "bind_player b = Inr v" "skill_level_check (b_skill_level v)"
    by (auto simp: player_row_ok_def split: sum.splits)
  with a bind_player_id[of b v x] bind_player_null[of b v]
  show "put_players now i b db
          = (Response 500 (ErrorMessage (unique_violation ''players_player_id_key'')), db)"
    by (auto simp: put_players_def update_player_def)
next
  assume a: "int4_ok i" "i \<in> set (map p_id (players db))" "player_row_ok b"
    "b_player_id b = None \<or> b_full_name b = None"
  then obtain v where v: "bind_player b = Inr v"
    by (auto simp: player_row_ok_def split: sum.splits)
  with a bind_player_null[of b v]
  show "\<exists>c. put_players now i b db = (Response 500 (ErrorMessage (not_null_violation c)), db)"
    by (auto simp: put_players_def update_player_def split: option.splits)
next
  assume a: "int4_ok i" "i \<in> set (map p_id (players db))" "player_row_ok b"
    "b_player_id b = Some []" "b_full_name b = Some []"
    "[] \<notin> set (map player_id (filter (\<lambda>p. p_id p \<noteq> i) (players db)))"
  then obtain v where v: "bind_player b = Inr v" "skill_level_check (b_skill_level v)"
    by (auto simp: player_row_ok_def split: sum.splits)
  from a(2) have "filter (\<lambda>p. p_id p = i) (players db) \<noteq> []"
    by (auto simp: filter_empty_conv)
  moreover have "b_player_id v = Some []"
    using bind_player_id[OF v(1) a(4)] by simp
  moreover have "b_full_name v = Some []"
    using bind_player_full_name[OF v(1) a(5)] by simp
  ultimately show "fst (put_players now i b db) = Response 200 (Message ''Player updated successfully'')"
    using v a by (simp add: put_players_def update_player_def)
qed

theorem put_players_unclassified_witness:
  "int4_ok 2 \<and> 2 \<in> set (map p_id (players two_players)) \<and> player_row_ok ann
   \<and> b_player_id ann = Some ''P1'' \<and> b_full_name ann \<noteq> None
   \<and> ''P1'' \<in> set (map player_id (filter (\<lambda>p. p_id p \<noteq> 2) (players two_players)))
   \<and> put_players 5 2 ann two_players
       = (Response 500 (ErrorMessage (unique_violation ''players_player_id_key'')), two_players)
   \<and> b_full_name (bea\<lparr>b_full_name := None\<rparr>) = None
   \<and> put_players 5 2 (bea\<lparr>b_full_name := None\<rparr>) two_players
       = (Response 500 (ErrorMessage (not_null_violation ''full_name'')), two_players)
   \<and> fst (put_players 5 2 (bea\<lparr>b_player_id := Some [], b_full_name := Some []\<rparr>) two_players)
       = Response 200 (Message ''Player updated successfully'')
   \<and> status (fst (post_players 5 (bea\<lparr>b_player_id := Some [], b_full_name := Some []\<rparr>) two_players))
       = 400"
  using put_players_unclassified[of 5 2 ann two_players "''P1''"]
    put_players_unclassified[of 5 2 "bea\<lparr>b_full_name := None\<rparr>" two_players "''P2''"]
    put_players_unclassified[of 5 2 "bea\<lparr>b_player_id := Some [], b_full_name := Some []\<rparr>" two_players "[]"]
  by (simp add: two_players_eq ann_def bea_def put_players_def update_player_def eval_defs)

subsection \<open>Deleting a player\<close>

text \<open>
  C7. Deleting an existing player answers 200 and removes the player's row and, by the
  foreign key's ON DELETE CASCADE (the handler issues the one DELETE on \<^verbatim>\<open>players\<close>),
  every \<^verbatim>\<open>player_sessions\<close> row of that player, leaving the other rows; a get-by-key for
  the player then answers 404. Deleting a key that matches no row answers 404 and
  changes nothing. Keys are INTEGER values.
\<close>

theorem delete_players_cascade:
  "(int4_ok i \<and> i \<in> set (map p_id (players db)) \<longrightarrow>
      fst (delete_players i db) = Response 200 (Message ''Player deleted successfully'')
    \<and> players (snd (delete_players i db)) = filter (\<lambda>p. p_id p \<noteq> i) (players db)
    \<and> player_sessions (snd (delete_players i db))
        = filter (\<lambda>r. ps_player_id r \<noteq> i) (player_sessions db)
    \<and> rows_of i (player_sessions (snd (delete_players i db))) = []
    \<and> get_player i (snd (delete_players i db)) = Response 404 (Error ''Player not found''))
   \<and> (int4_ok i \<and> i \<notin> set (map p_id (players db)) \<longrightarrow>
      delete_players i db = (Response 404 (Error ''Player not found''), db))"
proof (intro conjI impI; (elim conjE)?)
  assume a: "int4_ok i" "i \<in> set (map p_id (players db))"
  then have ne: "filter (\<lambda>p. p_id p = i) (players db) \<noteq> []"
    by (auto simp: filter_empty_conv)
  show "fst (delete_players i db) = Response 200 (Message ''Player deleted successfully'')"
    using a ne by (simp add: delete_players_def delete_from_players_def)
  show p: "players (snd (delete_players i db)) = filter (\<lambda>p. p_id p \<noteq> i) (players db)"
    using a ne by (simp add: delete_players_def delete_from_players_def)
  show r: "player_sessions (snd (delete_players i db))
        = filter (\<lambda>r. ps_player_id r \<noteq> i) (player_sessions db)"
    using a ne by (simp add: delete_players_def delete_from_players_def)
  show "rows_of i (player_sessions (snd (delete_players i db))) = []"
    unfolding r by (simp add: rows_of_def filter_empty_conv)
  have "filter (\<lambda>p. p_id p = i) (players (snd (delete_players i db))) = []"
    unfolding p by (simp add: filter_empty_conv)
  then show "get_player i (snd (delete_players i db)) = Response 404 (Error ''Player not found'')"
    using a by (simp add: get_player_def select_player_def)
next
  assume "int4_ok i" "i \<notin> set (map p_id (players db))"
  then show "delete_players i db = (Response 404 (Error ''Player not found''), db)"
    by (simp add: delete_players_def delete_from_players_def)
qed

theorem delete_players_cascade_witness:
  "int4_ok 1 \<and> 1 \<in> set (map p_id (players after_scenario))
   \<and> fst (delete_players 1 after_scenario) = Response 200 (Message ''Player deleted successfully'')
   \<and> players (snd (delete_players 1 after_scenario)) = []
   \<and> player_sessions (snd (delete_players 1 after_scenario)) = []
   \<and> get_player 1 (snd (delete_players 1 after_scenario)) = Response 404 (Error ''Player not found'')
   \<and> int4_ok 7 \<and> 7 \<notin> set (map p_id (players after_scenario))
   \<and> delete_players 7 after_scenario = (Response 404 (Error ''Player not found''), after_scenario)"
  using delete_players_cascade[of 1 after_scenario] delete_players_cascade[of 7 after_scenario]
  by (simp add: after_scenario_eq int4_ok_def)

subsection \<open>Creating a session\<close>

text \<open>
  C8. POST /api/sessions of the later revision: without a date the answer is 400
  (the date is required) and nothing changes. A date that is already recorded is never
  accepted and leaves the \<^verbatim>\<open>sessions\<close> table, hence the session count, as it was; the
  answer is 400 with a message naming the date as the request wrote it (unless the
  SERIAL sequence is exhausted, which is a storage failure).
\<close>

theorem post_sessions_conflict:
  \<open>(\<not> truthy_str (sb_session_date b) \<longrightarrow>
      post_sessions date_in now b db = (Response 400 (Error ''Session date is required''), db))
   \<and> (sb_session_date b = Some s \<and> s \<noteq> [] \<and> date_in s = Some d
        \<and> d \<in> set (map session_date (sessions db)) \<longrightarrow>
        status (fst (post_sessions date_in now b db)) \<noteq> 200
      \<and> sessions (snd (post_sessions date_in now b db)) = sessions db
      \<and> (sessions_id_seq db < 2147483647 \<longrightarrow>
           fst (post_sessions date_in now b db)
             = Response 400 (Error (''Session for date "'' @ s @ ''" already exists''))))\<close>
  by (auto simp: post_sessions_def insert_session_def truthy_str_def template_def nextval_def Let_def)

theorem post_sessions_conflict_witness:
  \<open>\<not> truthy_str (sb_session_date \<lparr>sb_session_date = None\<rparr>)
   \<and> post_sessions sample_date_in 9 \<lparr>sb_session_date = None\<rparr> after_scenario
       = (Response 400 (Error ''Session date is required''), after_scenario)
   \<and> sample_date_in ''2024-03-01'' = Some 19783
   \<and> 19783 \<in> set (map session_date (sessions after_scenario))
   \<and> sessions_id_seq after_scenario < 2147483647
   \<and> fst (post_sessions sample_date_in 9 \<lparr>sb_session_date = Some ''2024-03-01''\<rparr> after_scenario)
       = Response 400 (Error ''Session for date "2024-03-01" already exists'')
   \<and> length (sessions (snd (post_sessions sample_date_in 9
        \<lparr>sb_session_date = Some ''2024-03-01''\<rparr> after_scenario))) = 1\<close>
  using post_sessions_conflict[where b = "\<lparr>sb_session_date = None\<rparr>"
      and date_in = sample_date_in and db = after_scenario and now = 9]
    post_sessions_conflict[where b = "\<lparr>sb_session_date = Some ''2024-03-01''\<rparr>"
      and s = "''2024-03-01''" and date_in = sample_date_in and d = 19783
      and db = after_scenario and now = 9]
  by (simp add: after_scenario_eq truthy_str_def sample_date_in_def)

subsection \<open>The roster with statistics\<close>

lemma avg_per_session_eq:
  "avg_per_session c n =
     Inr (case n of
            None \<Rightarrow> Some 0
          | Some k \<Rightarrow> if 0 < k then map_option (\<lambda>t. round2 (of_int t / of_int k)) c else Some 0)"
  by (cases n; cases c) (auto simp: avg_per_session_def numeric_div_def)

lemma stats_rows_eq:
  "stats_rows ps =
     Inr (map (\<lambda>p. \<lparr>st_player = p,
            avg_points_per_session =
              (case sessions_attended_count p of
                 None \<Rightarrow> Some 0
               | Some k \<Rightarrow> if 0 < k
                   then map_option (\<lambda>t. round2 (of_int t / of_int k)) (total_points_scored p)
                   else Some 0),
            avg_saves_per_session =
              (case sessions_attended_count p of
                 None \<Rightarrow> Some 0
               | Some k \<Rightarrow> if 0 < k
                   then map_option (\<lambda>t. round2 (of_int t / of_int k)) (total_saves p)
                   else Some 0)\<rparr>) ps)"
  by (induction ps) (simp_all add: avg_per_session_eq)

lemma set_insert_by: "set (insert_by le x xs) = insert x (set xs)"
  by (induction xs) auto

lemma set_order_by: "set (order_by le xs) = set xs"
  by (induction xs) (simp_all add: order_by_def set_insert_by)

lemma round2_hundredths: "\<exists>k::int. round2 x = of_int k / 100"
proof (cases "0 \<le> x")
  case True
  then show ?thesis by (auto simp: round2_def)
next
  case False
  then have "round2 x = of_int (- \<lfloor>- x * 100 + 1 / 2\<rfloor>) / 100" by (simp add: round2_def)
  then show ?thesis by blast
qed

lemma floor_half_near:
  fixes y :: rat
  shows "\<bar>of_int \<lfloor>y * 100 + 1 / 2\<rfloor> / 100 - y\<bar> \<le> 1 / 200"
proof -
  define k where "k = \<lfloor>y * 100 + 1 / 2\<rfloor>"
  have "of_int k \<le> y * 100 + 1 / 2" "y * 100 + 1 / 2 < of_int k + 1"
    unfolding k_def by linarith+
  then have "\<bar>of_int k / 100 - y\<bar> \<le> 1 / 200"
    by linarith
  then show ?thesis unfolding k_def .
qed

lemma round2_near: "\<bar>round2 x - x\<bar> \<le> 1 / 200"
proof (cases "0 \<le> x")
  case True
  then show ?thesis using floor_half_near[of x] by (simp add: round2_def)
next
  case False
  have "\<bar>round2 x - x\<bar> = \<bar>of_int \<lfloor>(- x) * 100 + 1 / 2\<rfloor> / 100 - (- x)\<bar>"
    using False by (simp add: round2_def abs_if)
  then show ?thesis using floor_half_near[of "- x"] by simp
qed

text \<open>
  C5. GET /api/players always answers 200 with one row per player: no division error
  arises. In every row, when \<^verbatim>\<open>sessions_attended_count\<close> is positive each average is the
  counter divided by the count and rounded by \<^verbatim>\<open>ROUND(_, 2)\<close> (NULL when the counter
  is NULL), and when the count is 0 each average is exactly 0. \<^verbatim>\<open>ROUND(_, 2)\<close> yields a
  whole number of hundredths at most half a hundredth away from its argument.
\<close>

theorem get_players_averages:
  "(\<exists>rows. get_players collate db = Response 200 (PlayersWithStats rows)
      \<and> set (map st_player rows) = set (players db)
      \<and> (\<forall>r \<in> set rows. \<forall>n.
            (sessions_attended_count (st_player r) = Some n \<and> 0 < n \<longrightarrow>
               avg_points_per_session r
                 = map_option (\<lambda>t. round2 (of_int t / of_int n)) (total_points_scored (st_player r))
             \<and> avg_saves_per_session r
                 = map_option (\<lambda>t. round2 (of_int t / of_int n)) (total_saves (st_player r)))
          \<and> (sessions_attended_count (st_player r) = Some 0 \<longrightarrow>
               avg_points_per_session r = Some 0 \<and> avg_saves_per_session r = Some 0)))
   \<and> (\<forall>x. (\<exists>k::int. round2 x = of_int k / 100) \<and> \<bar>round2 x - x\<bar> \<le> 1 / 200)"
  using round2_hundredths round2_near
  by (auto simp: get_players_def stats_rows_eq set_order_by image_image)

lemma round2_of_int: "round2 (of_int n) = of_int n"
proof -
  have "\<lfloor>(of_int n :: rat) * 100 + 1 / 2\<rfloor> = n * 100"
    by (rule floor_unique) simp_all
  moreover have "\<lfloor>- (of_int n :: rat) * 100 + 1 / 2\<rfloor> = - n * 100"
    by (rule floor_unique) simp_all
  ultimately show ?thesis by (simp add: round2_def)
qed

lemma round2_samples: "round2 10 = 10" "round2 2 = 2"
  using round2_of_int[of 10] round2_of_int[of 2] by simp_all

theorem get_players_averages_witness:
  "get_players bytewise two_players =
     Response 200 (PlayersWithStats
       [\<lparr>st_player = hd (players two_players),
          avg_points_per_session = Some 10, avg_saves_per_session = Some 2\<rparr>,
        \<lparr>st_player = hd (tl (players two_players)),
          avg_points_per_session = Some 0, avg_saves_per_session = Some 0\<rparr>])
   \<and> sessions_attended_count (hd (players two_players)) = Some 1
   \<and> total_points_scored (hd (players two_players)) = Some 10
   \<and> sessions_attended_count (hd (tl (players two_players))) = Some 0"
  using get_players_averages[of bytewise two_players]
  by (simp add: two_players_eq get_players_def order_by_def avg_per_session_def numeric_div_def
        round2_samples)


subsection \<open>Recording statistics: outcomes and the running counters\<close>

lemma upsert_error:
  "upsert_player_session now pid sid pts sv mvp db = (Inl e, db1) \<Longrightarrow>
     players db1 = players db \<and> sessions db1 = sessions db \<and> player_sessions db1 = player_sessions db
     \<and> players_id_seq db1 = players_id_seq db \<and> sessions_id_seq db1 = sessions_id_seq db"
  by (auto simp: upsert_player_session_def Let_def split: if_splits sum.splits)

lemma upsert_frame:
  "upsert_player_session now pid sid pts sv mvp db = (r, db1) \<Longrightarrow>
     players db1 = players db \<and> sessions db1 = sessions db
     \<and> players_id_seq db1 = players_id_seq db \<and> sessions_id_seq db1 = sessions_id_seq db"
  by (auto simp: upsert_player_session_def Let_def split: if_splits sum.splits)

lemma filter_map_other:
  assumes "\<And>r. key (f r) = key r" "\<And>r. key r = i \<Longrightarrow> f r = r"
  shows "filter (\<lambda>r. key r = i) (map f rows) = filter (\<lambda>r. key r = i) rows"
  using assms by (induction rows) auto

lemma upsert_rows_other:
  assumes "upsert_player_session now pid sid pts sv mvp db = (Inr u, db1)" "i \<noteq> pid"
  shows "rows_of i (player_sessions db1) = rows_of i (player_sessions db)"
proof -
  let ?f = "\<lambda>r. if ps_player_id r = pid \<and> ps_session_id r = sid
                       then r\<lparr>points_scored := Some pts, saves := Some sv, mvp_award := Some mvp\<rparr>
                       else r"
  have "filter (\<lambda>r. ps_player_id r = i) (map ?f (player_sessions db)) = filter (\<lambda>r. ps_player_id r = i) (player_sessions db)"
    using assms(2) by (intro filter_map_other) auto
  then show ?thesis
    using assms by (auto simp: upsert_player_session_def Let_def rows_of_def split: if_splits sum.splits)
qed

lemma update_stats_error:
  "update_player_stats now pid db = (Inl e, db2) \<Longrightarrow> db2 = db"
  by (auto simp: update_player_stats_def split: if_splits)

lemma update_stats_frame:
  "update_player_stats now pid db = (r, db2) \<Longrightarrow>
     player_sessions db2 = player_sessions db \<and> sessions db2 = sessions db
     \<and> players_id_seq db2 = players_id_seq db \<and> sessions_id_seq db2 = sessions_id_seq db
     \<and> player_sessions_id_seq db2 = player_sessions_id_seq db
     \<and> map p_id (players db2) = map p_id (players db)"
  by (auto simp: update_player_stats_def split: if_splits)

lemma update_stats_match:
  "update_player_stats now pid db = (Inr u, db2) \<Longrightarrow> counters_match pid db2"
  by (auto simp: update_player_stats_def counters_match_def split: if_splits)

lemma update_stats_other:
  "update_player_stats now pid db = (Inr u, db2) \<Longrightarrow> i \<noteq> pid \<Longrightarrow>
     filter (\<lambda>p. p_id p = i) (players db2) = filter (\<lambda>p. p_id p = i) (players db)"
  by (auto simp: update_player_stats_def split: if_splits intro!: filter_map_other)

lemma counters_match_cong:
  assumes "filter (\<lambda>p. p_id p = i) (players db') = filter (\<lambda>p. p_id p = i) (players db)"
    and "rows_of i (player_sessions db') = rows_of i (player_sessions db)"
  shows "counters_match i db' = counters_match i db"
proof -
  have "{p \<in> set (players db'). p_id p = i} = {p \<in> set (players db). p_id p = i}"
    using arg_cong[OF assms(1), of set] by simp
  then have "\<And>Q. (\<forall>p \<in> set (players db'). p_id p = i \<longrightarrow> Q p) = (\<forall>p \<in> set (players db). p_id p = i \<longrightarrow> Q p)"
    by blast
  then show ?thesis
    using assms(2)
    by (simp add: counters_match_def sum_points_scored_def sum_saves_def count_mvp_def count_rows_def)
qed

text \<open>The three outcomes of the handler.\<close>

lemma post_player_sessions_cases:
  assumes "post_player_sessions now b db = (resp, db')"
  obtains
    (invalid) "resp = Response 400 (Error ''Player ID and Session ID are required'')" "db' = db"
      "\<not> truthy_num (r_player_id b) \<or> \<not> truthy_num (r_session_id b)"
  | (failed) e s where "resp = Response 500 (ErrorMessage e)" "db' = db\<lparr>player_sessions_id_seq := s\<rparr>"
  | (recorded) db1 where "resp = Response 200 (Message ''Player session statistics added successfully'')"
      "upsert_player_session now (number (r_player_id b)) (number (r_session_id b))
         (or_num (r_points_scored b) 0) (or_num (r_saves b) 0) (or_bool (r_mvp_award b) False) db
         = (Inr (), db1)"
      "update_player_stats now (number (r_player_id b)) db1 = (Inr (), db')"
proof (cases "\<not> truthy_num (r_player_id b) \<or> \<not> truthy_num (r_session_id b)")
  case True
  with assms invalid show ?thesis by (auto simp: post_player_sessions_def)
next
  case valid: False
  obtain r1 db1 where u: "upsert_player_session now (number (r_player_id b)) (number (r_session_id b))
         (or_num (r_points_scored b) 0) (or_num (r_saves b) 0) (or_bool (r_mvp_award b) False) db
         = (r1, db1)" by (cases "upsert_player_session now (number (r_player_id b)) (number (r_session_id b))
         (or_num (r_points_scored b) 0) (or_num (r_saves b) 0) (or_bool (r_mvp_award b) False) db")
  show ?thesis
  proof (cases r1)
    case (Inl e)
    with assms valid u failed[of e "player_sessions_id_seq db1"] show ?thesis
      by (auto simp: post_player_sessions_def rollback_def)
  next
    case (Inr x)
    obtain r2 db2 where s: "update_player_stats now (number (r_player_id b)) db1 = (r2, db2)"
      by (cases "update_player_stats now (number (r_player_id b)) db1")
    show ?thesis
    proof (cases r2)
      case (Inl e)
      with assms valid u s Inr failed[of e "player_sessions_id_seq db2"] show ?thesis
        by (auto simp: post_player_sessions_def rollback_def)
    next
      case r2: (Inr y)
      with assms valid u s Inr recorded[of db1] show ?thesis
        by (auto simp: post_player_sessions_def)
    qed
  qed
qed

lemma post_player_sessions_counters:
  assumes "post_player_sessions now b db = (resp, db')"
  shows "counters_match i db' = ((status resp = 200 \<and> number (r_player_id b) = i) \<or> counters_match i db)"
  using assms
proof (cases rule: post_player_sessions_cases)
  case invalid
  then show ?thesis by simp
next
  case (failed e s)
  then show ?thesis by (simp add: counters_match_def)
next
  case (recorded db1)
  show ?thesis
  proof (cases "number (r_player_id b) = i")
    case True
    with recorded update_stats_match[OF recorded(3)] show ?thesis by simp
  next
    case False
    then have ne: "i \<noteq> number (r_player_id b)" by simp
    have "counters_match i db' = counters_match i db"
      using update_stats_other[OF recorded(3) ne] update_stats_frame[OF recorded(3)]
        upsert_rows_other[OF recorded(2) ne] upsert_frame[OF recorded(2)]
      by (intro counters_match_cong) simp_all
    with False recorded show ?thesis by simp
  qed
qed

subsection \<open>The requests that keep the counters equal to the aggregates\<close>

lemma insert_player_effect:
  fixes db :: db
  assumes "insert_player now b db = (r, db')"
  shows "sessions db' = sessions db \<and> player_sessions db' = player_sessions db
     \<and> players_id_seq db \<le> players_id_seq db'
     \<and> (players db' = players db
         \<or> (\<exists>p. players db' = players db @ [p] \<and> p_id p = players_id_seq db + 1
               \<and> players_id_seq db' = players_id_seq db + 1
               \<and> total_points_scored p = Some 0 \<and> total_saves p = Some 0
               \<and> mvp_awards_count p = Some 0 \<and> sessions_attended_count p = Some 0))"
  using assms
  by (auto simp: insert_player_def Let_def nextval_def split: sum.splits option.splits if_splits)

lemma post_players_effect:
  fixes db :: db
  shows "sessions (snd (post_players now b db)) = sessions db
     \<and> player_sessions (snd (post_players now b db)) = player_sessions db
     \<and> players_id_seq db \<le> players_id_seq (snd (post_players now b db))
     \<and> (players (snd (post_players now b db)) = players db
         \<or> (\<exists>p. players (snd (post_players now b db)) = players db @ [p]
               \<and> p_id p = players_id_seq db + 1
               \<and> players_id_seq (snd (post_players now b db)) = players_id_seq db + 1
               \<and> total_points_scored p = Some 0 \<and> total_saves p = Some 0
               \<and> mvp_awards_count p = Some 0 \<and> sessions_attended_count p = Some 0))"
proof -
  obtain r db' where r: "insert_player now b db = (r, db')" by (cases "insert_player now b db")
  from insert_player_effect[OF r] r show ?thesis
    by (cases r) (auto simp: post_players_def)
qed

lemma rows_of_absent:
  "schema_ok db \<Longrightarrow> i \<notin> set (map p_id (players db)) \<Longrightarrow> rows_of i (player_sessions db) = []"
  by (auto simp: schema_ok_def rows_of_def filter_empty_conv)

lemma counters_match_fresh:
  assumes "rows_of i rows = []"
  shows "sum_points_scored i rows = 0" "sum_saves i rows = 0" "count_mvp i rows = 0" "count_rows i rows = 0"
  using assms by (simp_all add: sum_points_scored_def sum_saves_def count_mvp_def count_rows_def)

lemma consistent_post_players:
  assumes "consistent db"
  shows "consistent (snd (post_players now b db))"
proof -
  let ?db' = "snd (post_players now b db)"
  from assms have s: "schema_ok db" and c: "\<forall>p \<in> set (players db). counters_match (p_id p) db"
    by (simp_all add: consistent_def)
  note e = post_players_effect[of now b db]
  from e consider (same) "players ?db' = players db"
    | (new) p where "players ?db' = players db @ [p]" "p_id p = players_id_seq db + 1"
        "players_id_seq ?db' = players_id_seq db + 1"
        "total_points_scored p = Some 0" "total_saves p = Some 0"
        "mvp_awards_count p = Some 0" "sessions_attended_count p = Some 0"
    by blast
  then show ?thesis
  proof cases
    case same
    with e s c show ?thesis
      by (auto simp: consistent_def schema_ok_def counters_match_def)
  next
    case new
    have fresh: "p_id p \<notin> set (map p_id (players db))"
      using s new(2) by (auto simp: schema_ok_def)
    have s': "schema_ok ?db'"
      using s e new fresh by (auto simp: schema_ok_def)
    have "counters_match i ?db'" if "i \<in> set (map p_id (players ?db'))" for i
    proof (cases "i = p_id p")
      case True
      with fresh have "rows_of i (player_sessions db) = []" using rows_of_absent[OF s] by simp
      moreover have "\<forall>q \<in> set (players db). p_id q \<noteq> p_id p"
        using s new(2) by (auto simp: schema_ok_def)
      ultimately show ?thesis
        using counters_match_fresh[of i "player_sessions db"] True new e
        by (auto simp: counters_match_def)
    next
      case False
      with that new c e show ?thesis by (auto simp: counters_match_def)
    qed
    with s' show ?thesis by (auto simp: consistent_def)
  qed
qed

lemma map_stats_of_if:
  assumes "\<And>p. stats_of (g p) = stats_of p"
  shows "map stats_of (map (\<lambda>p. if c p then g p else p) ps) = map stats_of ps"
  using assms by (induction ps) auto

lemma update_player_effect:
  fixes db :: db
  assumes "update_player now b i db = (r, db')"
  shows "sessions db' = sessions db \<and> player_sessions db' = player_sessions db
     \<and> players_id_seq db' = players_id_seq db
     \<and> map stats_of (players db') = map stats_of (players db)"
  using assms
  by (auto simp: update_player_def stats_of_def split: sum.splits option.splits if_splits
           intro!: map_stats_of_if)

lemma p_id_stats_of: "map p_id ps = map fst (map stats_of ps)"
  by (simp add: stats_of_def)

lemma schema_ok_stats:
  assumes "schema_ok db" "map stats_of (players db') = map stats_of (players db)"
    "player_sessions db' = player_sessions db" "players_id_seq db \<le> players_id_seq db'"
  shows "schema_ok db'"
proof -
  have "map p_id (players db') = map p_id (players db)"
    using assms(2) by (simp only: p_id_stats_of)
  with assms(1,3,4) show ?thesis
    unfolding schema_ok_def by auto
qed

lemma counters_match_stats:
  "counters_match i db =
     (\<forall>t \<in> set (map stats_of (players db)). fst t = i \<longrightarrow>
        snd t = (Some (sum_points_scored i (player_sessions db)),
                 Some (sum_saves i (player_sessions db)),
                 Some (count_mvp i (player_sessions db)),
                 Some (count_rows i (player_sessions db))))"
  by (auto simp: counters_match_def stats_of_def)

lemma consistent_stats:
  assumes "consistent db" "map stats_of (players db') = map stats_of (players db)"
    "player_sessions db' = player_sessions db" "players_id_seq db \<le> players_id_seq db'"
  shows "consistent db'"
proof -
  have ids: "map p_id (players db') = map p_id (players db)"
    using assms(2) by (simp only: p_id_stats_of)
  have "counters_match i db' = counters_match i db" for i
    by (simp only: counters_match_stats assms(2,3))
  moreover have "set (map p_id (players db')) = set (map p_id (players db))"
    using ids by simp
  ultimately have "(\<forall>p \<in> set (players db'). counters_match (p_id p) db')
      = (\<forall>p \<in> set (players db). counters_match (p_id p) db)"
    by (metis (no_types, lifting) image_iff list.set_map)
  with assms schema_ok_stats[of db db'] show ?thesis
    by (simp add: consistent_def)
qed

lemma consistent_put_players:
  assumes "consistent db"
  shows "consistent (snd (put_players now i b db))"
proof -
  obtain r db' where r: "update_player now b i db = (r, db')" by (cases "update_player now b i db")
  have "snd (put_players now i b db) = db'"
    using r by (cases r) (auto simp: put_players_def)
  with update_player_effect[OF r] consistent_stats[OF assms, of db'] show ?thesis by simp
qed

lemma schema_ok_ids:
  assumes "schema_ok db" "map p_id (players db') = map p_id (players db)"
    "player_sessions db' = player_sessions db" "players_id_seq db \<le> players_id_seq db'"
  shows "schema_ok db'"
  using assms unfolding schema_ok_def by auto

lemma consistent_cong:
  assumes "players db' = players db" "player_sessions db' = player_sessions db"
    "players_id_seq db' = players_id_seq db"
  shows "consistent db' = consistent db"
  using assms by (simp add: consistent_def schema_ok_def counters_match_def)

lemma rows_of_filter_other:
  "j \<noteq> i \<Longrightarrow> rows_of j (filter (\<lambda>r. ps_player_id r \<noteq> i) rows) = rows_of j rows"
  by (induction rows) (auto simp: rows_of_def)

lemma consistent_delete_players:
  assumes "consistent db"
  shows "consistent (snd (delete_players i db))"
proof (cases "int4_ok i \<and> i \<in> set (map p_id (players db))")
  case False
  then have "snd (delete_players i db) = db"
    by (auto simp: delete_players_def delete_from_players_def)
  with assms show ?thesis by simp
next
  case True
  let ?db' = "snd (delete_players i db)"
  from True have ne: "filter (\<lambda>p. p_id p = i) (players db) \<noteq> []"
    by (auto simp: filter_empty_conv)
  have p: "players ?db' = filter (\<lambda>p. p_id p \<noteq> i) (players db)"
    and r: "player_sessions ?db' = filter (\<lambda>r. ps_player_id r \<noteq> i) (player_sessions db)"
    and q: "players_id_seq ?db' = players_id_seq db"
    using True ne by (simp_all add: delete_players_def delete_from_players_def)
  from assms have s: "schema_ok db" and c: "\<forall>p \<in> set (players db). counters_match (p_id p) db"
    by (simp_all add: consistent_def)
  have "schema_ok ?db'"
    using s unfolding schema_ok_def p r q
    by (auto simp: distinct_map_filter)
  moreover have "counters_match (p_id x) ?db'" if "x \<in> set (players ?db')" for x
  proof -
    from that have x: "x \<in> set (players db)" "p_id x \<noteq> i" by (auto simp: p)
    with c have "counters_match (p_id x) db" by simp
    then show ?thesis
      using x(2) unfolding counters_match_def p r
      by (simp add: sum_points_scored_def sum_saves_def count_mvp_def count_rows_def
            rows_of_filter_other)
  qed
  ultimately show ?thesis by (simp add: consistent_def)
qed

lemma post_sessions_frame:
  "players (snd (post_sessions date_in now b db)) = players db
   \<and> player_sessions (snd (post_sessions date_in now b db)) = player_sessions db
   \<and> players_id_seq (snd (post_sessions date_in now b db)) = players_id_seq db"
  by (auto simp: post_sessions_def insert_session_def Let_def split: option.splits sum.splits)

lemma consistent_post_sessions:
  "consistent db \<Longrightarrow> consistent (snd (post_sessions date_in now b db))"
  using post_sessions_frame[of date_in now b db] consistent_cong by blast

lemma upsert_keys:
  assumes "upsert_player_session now pid sid pts sv mvp db = (Inr u, db1)"
  shows "map (\<lambda>r. (ps_player_id r, ps_session_id r)) (player_sessions db1)
           = map (\<lambda>r. (ps_player_id r, ps_session_id r)) (player_sessions db)
         \<or> ((pid, sid) \<notin> set (map (\<lambda>r. (ps_player_id r, ps_session_id r)) (player_sessions db))
            \<and> pid \<in> set (map p_id (players db))
            \<and> map (\<lambda>r. (ps_player_id r, ps_session_id r)) (player_sessions db1)
                = map (\<lambda>r. (ps_player_id r, ps_session_id r)) (player_sessions db) @ [(pid, sid)])"
proof (cases "(pid, sid) \<in> set (map (\<lambda>r. (ps_player_id r, ps_session_id r)) (player_sessions db))")
  case True
  with assms have "player_sessions db1 = map (\<lambda>r.
                       if ps_player_id r = pid \<and> ps_session_id r = sid
                       then r\<lparr>points_scored := Some pts, saves := Some sv, mvp_award := Some mvp\<rparr>
                       else r) (player_sessions db)"
    by (auto simp: upsert_player_session_def Let_def split: if_splits sum.splits)
  then show ?thesis by (simp add: comp_def if_distrib cong: if_cong)
next
  case False
  with assms show ?thesis
    by (auto simp: upsert_player_session_def Let_def split: if_splits sum.splits)
qed

lemma schema_ok_upsert:
  assumes "upsert_player_session now pid sid pts sv mvp db = (Inr u, db1)" "schema_ok db"
  shows "schema_ok db1"
proof -
  have fk: "map ps_player_id rows = map fst (map (\<lambda>r. (ps_player_id r, ps_session_id r)) rows)" for rows
    by simp
  have "\<forall>r \<in> set (player_sessions db1). ps_player_id r \<in> set (map p_id (players db))"
  proof -
    have "set (map ps_player_id (player_sessions db1)) \<subseteq> set (map p_id (players db))"
      using upsert_keys[OF assms(1)] assms(2)
      unfolding fk schema_ok_def by (elim disjE) auto
    then show ?thesis by auto
  qed
  moreover have "distinct (map (\<lambda>r. (ps_player_id r, ps_session_id r)) (player_sessions db1))"
    using upsert_keys[OF assms(1)] assms(2) unfolding schema_ok_def by (elim disjE) auto
  ultimately show ?thesis
    using assms(2) upsert_frame[OF assms(1)] unfolding schema_ok_def by simp
qed

lemma consistent_post_player_sessions:
  assumes "consistent db"
  shows "consistent (snd (post_player_sessions now b db))"
proof -
  obtain resp db' where r: "post_player_sessions now b db = (resp, db')"
    by (cases "post_player_sessions now b db")
  from assms have s: "schema_ok db" and c: "\<forall>p \<in> set (players db). counters_match (p_id p) db"
    by (simp_all add: consistent_def)
  from r have "consistent db'"
  proof (cases rule: post_player_sessions_cases)
    case invalid
    with assms show ?thesis by simp
  next
    case (failed e s)
    with assms consistent_cong[of db' db] show ?thesis by simp
  next
    case (recorded db1)
    have ids: "map p_id (players db') = map p_id (players db)"
      using update_stats_frame[OF recorded(3)] upsert_frame[OF recorded(2)] by simp
    have "schema_ok db'"
      using schema_ok_upsert[OF recorded(2) s] update_stats_frame[OF recorded(3)]
      by (intro schema_ok_ids[of db1 db']) simp_all
    moreover have "counters_match (p_id x) db'" if "x \<in> set (players db')" for x
    proof -
      from that have "p_id x \<in> set (map p_id (players db))" using ids by (metis image_eqI list.set_map)
      then obtain y where "y \<in> set (players db)" "p_id y = p_id x" by auto
      with c have "counters_match (p_id x) db" by metis
      then show ?thesis using post_player_sessions_counters[OF r, of "p_id x"] by simp
    qed
    ultimately show ?thesis by (simp add: consistent_def)
  qed
  with r show ?thesis by simp
qed

lemma consistent_empty_db: "consistent empty_db"
  by (simp add: consistent_def schema_ok_def empty_db_def)

lemma consistent_serve:
  "consistent db \<Longrightarrow> \<not> drops_statistics q \<Longrightarrow> consistent (serve date_in q db)"
  by (cases q)
     (simp_all add: consistent_post_players consistent_put_players consistent_delete_players
        consistent_post_sessions consistent_post_player_sessions)

lemma consistent_run:
  "consistent db \<Longrightarrow> \<not> list_ex drops_statistics qs \<Longrightarrow> consistent (run date_in qs db)"
  by (induction qs arbitrary: db) (simp_all add: consistent_serve)

subsection \<open>The dashboard's MVP total\<close>

lemma sum_one_match:
  assumes "distinct (map f ps)" "x \<in> set (map f ps)"
  shows "(\<Sum>p\<leftarrow>ps. if x = f p then 1 else 0) = (1::int)"
  using assms
proof (induction ps)
  case Nil
  then show ?case by simp
next
  case (Cons p ps)
  show ?case
  proof (cases "x = f p")
    case True
    with Cons.prems have "\<forall>q \<in> set ps. x \<noteq> f q" by auto
    then have "(\<Sum>p\<leftarrow>ps. if x = f p then 1 else 0) = (0::int)"
      by (induction ps) auto
    with True show ?thesis by simp
  next
    case False
    with Cons show ?thesis by auto
  qed
qed

lemma sum_rows_by_owner:
  assumes "distinct (map f ps)" "\<forall>r \<in> set rows. g r \<in> set (map f ps)"
  shows "(\<Sum>p\<leftarrow>ps. int (length (filter (\<lambda>r. g r = f p) rows))) = int (length rows)"
  using assms(2)
proof (induction rows)
  case Nil
  then show ?case by simp
next
  case (Cons r rows)
  have "(\<Sum>p\<leftarrow>ps. int (length (filter (\<lambda>r. g r = f p) (r # rows))))
      = (\<Sum>p\<leftarrow>ps. (if g r = f p then 1 else 0) + int (length (filter (\<lambda>r. g r = f p) rows)))"
    by (intro arg_cong[of _ _ sum_list] map_cong) auto
  also have "\<dots> = (\<Sum>p\<leftarrow>ps. if g r = f p then 1 else 0)
      + (\<Sum>p\<leftarrow>ps. int (length (filter (\<lambda>r. g r = f p) rows)))"
    by (simp add: sum_list_addf)
  also have "\<dots> = 1 + int (length rows)"
    using sum_one_match[OF assms(1), of "g r"] Cons by simp
  finally show ?case by simp
qed

lemma count_mvp_alt:
  "count_mvp i rows
     = int (length (filter (\<lambda>r. ps_player_id r = i) (filter (\<lambda>r. mvp_award r = Some True) rows)))"
  by (simp add: count_mvp_def rows_of_def conj_commute)

lemma consistent_total_mvps:
  assumes "consistent db"
  shows "total_mvps (dashboard_stats db) = sum_of_mvp_counters db"
proof -
  let ?mvps = "filter (\<lambda>r. mvp_award r = Some True) (player_sessions db)"
  from assms have s: "schema_ok db" and c: "\<forall>p \<in> set (players db). counters_match (p_id p) db"
    by (simp_all add: consistent_def)
  have "sum_of_mvp_counters db
      = (\<Sum>p\<leftarrow>players db. count_mvp (p_id p) (player_sessions db))"
    unfolding sum_of_mvp_counters_def
    using c by (intro arg_cong[of _ _ sum_list] map_cong) (auto simp: counters_match_def)
  also have "\<dots> = (\<Sum>p\<leftarrow>players db. int (length (filter (\<lambda>r. ps_player_id r = p_id p) ?mvps)))"
    by (simp only: count_mvp_alt)
  also have "\<dots> = int (length ?mvps)"
    using s by (intro sum_rows_by_owner) (auto simp: schema_ok_def)
  finally show ?thesis by (simp add: dashboard_stats_def)
qed

text \<open>
  C6, as amended. In every state reached from a consistent one (the empty database is
  consistent) through requests other than POST /api/repair-database and a restart of
  the process, the dashboard's total of MVP awards, the number of \<^verbatim>\<open>player_sessions\<close>
  rows with the MVP flag true, equals the sum of the players' stored
  \<^verbatim>\<open>mvp_awards_count\<close>.
\<close>

theorem dashboard_total_mvps:
  "consistent db \<and> \<not> list_ex drops_statistics qs \<longrightarrow>
     total_mvps (dashboard_stats (run date_in qs db)) = sum_of_mvp_counters (run date_in qs db)"
  using consistent_total_mvps consistent_run by blast

theorem dashboard_total_mvps_witness:
  "consistent empty_db \<and> \<not> list_ex drops_statistics scenario
   \<and> total_mvps (dashboard_stats after_scenario) = 1
   \<and> sum_of_mvp_counters after_scenario = 1"
  using dashboard_total_mvps[of empty_db scenario sample_date_in, folded after_scenario_def]
    consistent_empty_db
  by (simp add: after_scenario_eq dashboard_stats_def sum_of_mvp_counters_def scenario_def)

text \<open>
  C6 as stated fails: \<^verbatim>\<open>initializeDatabase\<close> drops \<^verbatim>\<open>player_sessions\<close> at every start and
  leaves the counters. After the scenario and a restart the dashboard counts 0 MVP
  awards while the counters sum to 1.
\<close>

theorem dashboard_total_mvps_after_restart:
  "total_mvps (dashboard_stats (initializeDatabase after_scenario)) = 0
   \<and> sum_of_mvp_counters (initializeDatabase after_scenario) = 1"
  by (simp add: after_scenario_eq initializeDatabase_def recreate_player_sessions_def
        dashboard_stats_def sum_of_mvp_counters_def)


subsection \<open>Recording statistics in the earlier revision\<close>

lemmas eval_defs_v1 = post_sessions_v1_def insert_player_session_v1_def increment_player_stats_v1_def
  rollback_v1_def incremented_def counters_fit_def int4_null_ok_def plus_null_def empty_db_v1_def
  ann_stats_v1_def attendance_only_v1_def

lemma repaired_eq:
  "repaired = after_scenario\<lparr>player_sessions := [], player_sessions_id_seq := 0\<rparr>"
  by (simp add: repaired_def post_repair_database_def recreate_player_sessions_def)

lemma full_counter_eq:
  "full_counter =
     \<lparr>players = [\<lparr>p_id = 1, player_id = ''P1'', full_name = ''Ann'', phone_number = None,
        instagram_username = None, age = None, skill_level = None,
        form_submissions_count = Some 0, sessions_attended_count = Some 1,
        mvp_awards_count = Some 1, total_points_scored = Some 2147483647, total_saves = Some 2,
        p_created_at = Some 2, p_updated_at = Some 3\<rparr>],
      players_id_seq = 1,
      sessions = [\<lparr>s_id = 1, session_date = 19783, s_created_at = Some 1\<rparr>,
                  \<lparr>s_id = 2, session_date = 19790, s_created_at = Some 1\<rparr>],
      sessions_id_seq = 2,
      player_sessions = [\<lparr>ps_id = 1, ps_player_id = 1, ps_session_id = 1,
        points_scored = Some 2147483647, saves = Some 2, mvp_award = Some True,
        attendance_status = Some ''Present'', ps_created_at = Some 3\<rparr>],
      player_sessions_id_seq = 1\<rparr>"
  by (simp add: full_counter_def eval_defs)

lemma ann_v1_eq:
  "ann_v1 =
     \<lparr>players = [\<lparr>p_id = 1, player_id = ''P1'', full_name = ''Ann'', phone_number = None,
        instagram_username = None, age = None, skill_level = None,
        form_submissions_count = Some 0, sessions_attended_count = Some 0,
        mvp_awards_count = Some 0, total_points_scored = Some 0, total_saves = Some 0,
        p_created_at = Some 2, p_updated_at = Some 2\<rparr>],
      players_id_seq = 1, player_sessions_v1 = [], player_sessions_v1_id_seq = 0\<rparr>"
  by (simp add: ann_v1_def eval_defs eval_defs_v1)

lemma recorded_v1_eq:
  "recorded_v1 =
     \<lparr>players = [\<lparr>p_id = 1, player_id = ''P1'', full_name = ''Ann'', phone_number = None,
        instagram_username = None, age = None, skill_level = None,
        form_submissions_count = Some 0, sessions_attended_count = Some 1,
        mvp_awards_count = Some 1, total_points_scored = Some 10, total_saves = Some 2,
        p_created_at = Some 2, p_updated_at = Some 3\<rparr>],
      players_id_seq = 1,
      player_sessions_v1 = [\<lparr>ps1_id = 1, ps1_player_id = 1, ps1_session_date = 19783,
        ps1_points_scored = Some 10, ps1_saves = Some 2, ps1_mvp_award = Some True,
        ps1_attendance_status = Some ''Present'', ps1_created_at = Some 3\<rparr>],
      player_sessions_v1_id_seq = 1\<rparr>"
  by (simp add: recorded_v1_def ann_v1_eq eval_defs eval_defs_v1)

lemma post_sessions_v1_cases:
  assumes "post_sessions_v1 date_in now b db = (resp, db')"
  obtains
    (invalid) "resp = Response 400 (Error ''Player ID and Session Date are required'')" "db' = db"
      "\<not> truthy_num (q_player_id b) \<or> \<not> truthy_str (q_session_date b)"
  | (failed) e s where "resp = Response 500 (ErrorMessage e)"
      "db' = db\<lparr>player_sessions_v1_id_seq := s\<rparr>"
  | (recorded) db1 where "resp = Response 200 (Message ''Session statistics added successfully'')"
      "insert_player_session_v1 date_in now (number (q_player_id b)) (template (q_session_date b))
         (q_points_scored b) (q_saves b) (q_mvp_award b) db = (Inr (), db1)"
      "increment_player_stats_v1 now (q_points_scored b) (q_saves b)
         (if truthy_bool (q_mvp_award b) then 1 else 0) (number (q_player_id b)) db1 = (Inr (), db')"
proof (cases "\<not> truthy_num (q_player_id b) \<or> \<not> truthy_str (q_session_date b)")
  case True
  with assms invalid show ?thesis by (auto simp: post_sessions_v1_def)
next
  case valid: False
  obtain r1 db1 where u: "insert_player_session_v1 date_in now (number (q_player_id b))
      (template (q_session_date b)) (q_points_scored b) (q_saves b) (q_mvp_award b) db = (r1, db1)"
    by (cases "insert_player_session_v1 date_in now (number (q_player_id b))
      (template (q_session_date b)) (q_points_scored b) (q_saves b) (q_mvp_award b) db")
  show ?thesis
  proof (cases r1)
    case (Inl e)
    with assms valid u failed[of e "player_sessions_v1_id_seq db1"] show ?thesis
      by (auto simp: post_sessions_v1_def rollback_v1_def)
  next
    case (Inr x)
    obtain r2 db2 where s: "increment_player_stats_v1 now (q_points_scored b) (q_saves b)
         (if truthy_bool (q_mvp_award b) then 1 else 0) (number (q_player_id b)) db1 = (r2, db2)"
      by (cases "increment_player_stats_v1 now (q_points_scored b) (q_saves b)
         (if truthy_bool (q_mvp_award b) then 1 else 0) (number (q_player_id b)) db1")
    show ?thesis
    proof (cases r2)
      case (Inl e)
      with assms valid u s Inr failed[of e "player_sessions_v1_id_seq db2"] show ?thesis
        by (auto simp: post_sessions_v1_def rollback_v1_def)
    next
      case r2: (Inr y)
      with assms valid u s Inr recorded[of db1] show ?thesis
        by (auto simp: post_sessions_v1_def)
    qed
  qed
qed

lemma insert_v1_success:
  assumes "insert_player_session_v1 date_in now pid s pts sv mvp db = (Inr u, db1)"
  shows "players db1 = players db
    \<and> (\<exists>r. player_sessions_v1 db1 = player_sessions_v1 db @ [r]
          \<and> ps1_player_id r = pid \<and> date_in s = Some (ps1_session_date r)
          \<and> ps1_points_scored r = pts \<and> ps1_saves r = sv \<and> ps1_mvp_award r = mvp)"
  using assms
  by (auto simp: insert_player_session_v1_def Let_def int4_in_def
           split: if_splits sum.splits option.splits)

lemma increment_v1_success:
  assumes "increment_player_stats_v1 now pts sv mvp pid db = (Inr u, db2)"
  shows "player_sessions_v1 db2 = player_sessions_v1 db
    \<and> players db2 = map (\<lambda>p. if p_id p = pid then incremented now pts sv mvp p else p) (players db)"
  using assms
  by (auto simp: increment_player_stats_v1_def int4_in_def split: if_splits sum.splits option.splits)

lemma upsert_success_row:
  assumes "upsert_player_session now pid sid pts sv mvp db = (Inr u, db1)"
  shows "\<exists>r \<in> set (player_sessions db1). ps_player_id r = pid \<and> ps_session_id r = sid
           \<and> points_scored r = Some pts \<and> saves r = Some sv \<and> mvp_award r = Some mvp"
proof (cases "(pid, sid) \<in> set (map (\<lambda>r. (ps_player_id r, ps_session_id r)) (player_sessions db))")
  case True
  then obtain r0 where r0: "r0 \<in> set (player_sessions db)" "ps_player_id r0 = pid" "ps_session_id r0 = sid"
    by auto
  let ?f = "\<lambda>r. if ps_player_id r = pid \<and> ps_session_id r = sid
                       then r\<lparr>points_scored := Some pts, saves := Some sv, mvp_award := Some mvp\<rparr>
                       else r"
  from True assms have "player_sessions db1 = map ?f (player_sessions db)"
    by (auto simp: upsert_player_session_def Let_def split: if_splits sum.splits)
  with r0 have "?f r0 \<in> set (player_sessions db1)" by simp
  with r0 show ?thesis by (intro bexI[of _ "?f r0"]) simp_all
next
  case False
  with assms show ?thesis
    by (auto simp: upsert_player_session_def Let_def split: if_splits sum.splits)
qed

subsection \<open>Atomicity of recording statistics\<close>

lemma post_player_sessions_atomic:
  assumes "post_player_sessions now b db = (resp, db')"
  shows "(status resp \<noteq> 200 \<longrightarrow> same_tables db db')
    \<and> (status resp = 200 \<longrightarrow>
         (\<exists>r \<in> set (player_sessions db').
             ps_player_id r = number (r_player_id b) \<and> ps_session_id r = number (r_session_id b)
           \<and> points_scored r = Some (or_num (r_points_scored b) 0)
           \<and> saves r = Some (or_num (r_saves b) 0)
           \<and> mvp_award r = Some (or_bool (r_mvp_award b) False))
         \<and> counters_match (number (r_player_id b)) db')
    \<and> (truthy_num (r_player_id b) \<and> truthy_num (r_session_id b) \<and> status resp \<noteq> 200 \<longrightarrow>
         status resp = 500)"
  using assms
proof (cases rule: post_player_sessions_cases)
  case invalid
  then show ?thesis by (simp add: same_tables_def)
next
  case (failed e s)
  then show ?thesis by (simp add: same_tables_def)
next
  case (recorded db1)
  from upsert_success_row[OF recorded(2)] update_stats_frame[OF recorded(3)]
    update_stats_match[OF recorded(3)] recorded(1)
  show ?thesis by simp
qed

lemma post_sessions_v1_atomic:
  assumes "post_sessions_v1 date_in now c dbv = (resp, dbv')"
  shows "(status resp \<noteq> 200 \<longrightarrow> same_tables_v1 dbv dbv')
    \<and> (status resp = 200 \<longrightarrow>
         (\<exists>r. player_sessions_v1 dbv' = player_sessions_v1 dbv @ [r]
             \<and> ps1_player_id r = number (q_player_id c)
             \<and> date_in (template (q_session_date c)) = Some (ps1_session_date r)
             \<and> ps1_points_scored r = q_points_scored c \<and> ps1_saves r = q_saves c
             \<and> ps1_mvp_award r = q_mvp_award c)
         \<and> players dbv' = map (\<lambda>p. if p_id p = number (q_player_id c)
               then incremented now (q_points_scored c) (q_saves c)
                      (if truthy_bool (q_mvp_award c) then 1 else 0) p
               else p) (players dbv))
    \<and> (truthy_num (q_player_id c) \<and> truthy_str (q_session_date c) \<and> status resp \<noteq> 200 \<longrightarrow>
         status resp = 500)"
  using assms
proof (cases rule: post_sessions_v1_cases)
  case invalid
  then show ?thesis by (simp add: same_tables_v1_def)
next
  case (failed e s)
  then show ?thesis by (simp add: same_tables_v1_def)
next
  case (recorded db1)
  from insert_v1_success[OF recorded(2)] increment_v1_success[OF recorded(3)] recorded(1)
  show ?thesis by auto
qed

text \<open>
  C3. Recording statistics is atomic in both revisions. When the answer is not 200 every
  table holds the rows it held before the request: a failure of the second statement
  takes the first statement's row back with it. When the answer is 200 both writes are
  in the state: the row of the pair with the request's values and the player's
  rewritten counters (recomputed in the later revision, incremented in the earlier).
  A request that passed validation and did not succeed is answered 500.
\<close>

theorem record_statistics_atomic:
  "(status (fst (post_player_sessions now b db)) \<noteq> 200 \<longrightarrow>
      same_tables db (snd (post_player_sessions now b db)))
   \<and> (status (fst (post_player_sessions now b db)) = 200 \<longrightarrow>
        (\<exists>r \<in> set (player_sessions (snd (post_player_sessions now b db))).
            ps_player_id r = number (r_player_id b) \<and> ps_session_id r = number (r_session_id b)
          \<and> points_scored r = Some (or_num (r_points_scored b) 0)
          \<and> saves r = Some (or_num (r_saves b) 0)
          \<and> mvp_award r = Some (or_bool (r_mvp_award b) False))
        \<and> counters_match (number (r_player_id b)) (snd (post_player_sessions now b db)))
   \<and> (truthy_num (r_player_id b) \<and> truthy_num (r_session_id b)
        \<and> status (fst (post_player_sessions now b db)) \<noteq> 200 \<longrightarrow>
        status (fst (post_player_sessions now b db)) = 500)
   \<and> (status (fst (post_sessions_v1 date_in now c dbv)) \<noteq> 200 \<longrightarrow>
        same_tables_v1 dbv (snd (post_sessions_v1 date_in now c dbv)))
   \<and> (status (fst (post_sessions_v1 date_in now c dbv)) = 200 \<longrightarrow>
        (\<exists>r. player_sessions_v1 (snd (post_sessions_v1 date_in now c dbv))
               = player_sessions_v1 dbv @ [r]
            \<and> ps1_player_id r = number (q_player_id c)
            \<and> date_in (template (q_session_date c)) = Some (ps1_session_date r)
            \<and> ps1_points_scored r = q_points_scored c \<and> ps1_saves r = q_saves c
            \<and> ps1_mvp_award r = q_mvp_award c)
        \<and> players (snd (post_sessions_v1 date_in now c dbv))
            = map (\<lambda>p. if p_id p = number (q_player_id c)
                then incremented now (q_points_scored c) (q_saves c)
                       (if truthy_bool (q_mvp_award c) then 1 else 0) p
                else p) (players dbv))
   \<and> (truthy_num (q_player_id c) \<and> truthy_str (q_session_date c)
        \<and> status (fst (post_sessions_v1 date_in now c dbv)) \<noteq> 200 \<longrightarrow>
        status (fst (post_sessions_v1 date_in now c dbv)) = 500)"
  using post_player_sessions_atomic[of now b db "fst (post_player_sessions now b db)"
      "snd (post_player_sessions now b db)"]
    post_sessions_v1_atomic[of date_in now c dbv "fst (post_sessions_v1 date_in now c dbv)"
      "snd (post_sessions_v1 date_in now c dbv)"]
  by simp

theorem record_statistics_atomic_witness:
  "fst (upsert_player_session 4 1 2 1 0 False full_counter) = Inr ()
   \<and> post_player_sessions 4 one_more_point full_counter
       = (Response 500 (ErrorMessage numeric_value_out_of_range),
          full_counter\<lparr>player_sessions_id_seq := 2\<rparr>)
   \<and> same_tables full_counter (snd (post_player_sessions 4 one_more_point full_counter))
   \<and> status (fst (post_player_sessions 5 ann_stats repaired)) = 200
   \<and> counters_match 1 (snd (post_player_sessions 5 ann_stats repaired))
   \<and> status (fst (post_sessions_v1 sample_date_in 4 (ann_stats_v1\<lparr>q_player_id := Some 7\<rparr>) ann_v1))
       = 500
   \<and> same_tables_v1 ann_v1
       (snd (post_sessions_v1 sample_date_in 4 (ann_stats_v1\<lparr>q_player_id := Some 7\<rparr>) ann_v1))
   \<and> status (fst (post_sessions_v1 sample_date_in 3 ann_stats_v1 ann_v1)) = 200
   \<and> snd (post_sessions_v1 sample_date_in 3 ann_stats_v1 ann_v1) = recorded_v1"
  using record_statistics_atomic[of 4 one_more_point full_counter sample_date_in
      "ann_stats_v1\<lparr>q_player_id := Some 7\<rparr>" ann_v1]
    record_statistics_atomic[of 5 ann_stats repaired sample_date_in ann_stats_v1 ann_v1]
  apply (simp add: recorded_v1_def[symmetric])
  apply (simp add: full_counter_eq repaired_eq after_scenario_eq ann_v1_eq recorded_v1_eq
      one_more_point_def eval_defs eval_defs_v1 same_tables_def same_tables_v1_def counters_match_def)
  done

subsection \<open>Recording statistics twice for one pair\<close>

lemma filter_distinct_key:
  assumes "distinct (map key rows)" "r \<in> set rows"
  shows "filter (\<lambda>x. key x = key r) rows = [r]"
  using assms
proof (induction rows)
  case Nil
  then show ?case by simp
next
  case (Cons x rows)
  show ?case
  proof (cases "x = r")
    case True
    with Cons.prems have "key r \<notin> key ` set rows" by simp
    then have "\<forall>y \<in> set rows. key y \<noteq> key r" by (metis imageI)
    then have "filter (\<lambda>x. key x = key r) rows = []" by (simp add: filter_empty_conv)
    with True show ?thesis by simp
  next
    case False
    with Cons.prems have "r \<in> set rows" "key x \<noteq> key r" by auto
    with Cons show ?thesis by simp
  qed
qed

lemma schema_ok_post_player_sessions:
  assumes "schema_ok db"
  shows "schema_ok (snd (post_player_sessions now b db))"
proof -
  obtain resp db' where r: "post_player_sessions now b db = (resp, db')"
    by (cases "post_player_sessions now b db")
  from r have "schema_ok db'"
  proof (cases rule: post_player_sessions_cases)
    case invalid
    with assms show ?thesis by simp
  next
    case (failed e s)
    with assms show ?thesis by (simp add: schema_ok_def)
  next
    case (recorded db1)
    show ?thesis
      using schema_ok_upsert[OF recorded(2) assms] update_stats_frame[OF recorded(3)]
      by (intro schema_ok_ids[of db1 db']) simp_all
  qed
  with r show ?thesis by simp
qed

lemma post_player_sessions_one_row:
  assumes "schema_ok db" "status (fst (post_player_sessions now b db)) = 200"
  shows "\<exists>r. rows_of_pair (number (r_player_id b)) (number (r_session_id b))
               (snd (post_player_sessions now b db)) = [r]
            \<and> points_scored r = Some (or_num (r_points_scored b) 0)
            \<and> saves r = Some (or_num (r_saves b) 0)
            \<and> mvp_award r = Some (or_bool (r_mvp_award b) False)"
proof -
  let ?db' = "snd (post_player_sessions now b db)"
  let ?key = "\<lambda>r. (ps_player_id r, ps_session_id r)"
  from post_player_sessions_atomic[of now b db "fst (post_player_sessions now b db)" ?db'] assms(2)
  obtain r where r: "r \<in> set (player_sessions ?db')"
      "ps_player_id r = number (r_player_id b)" "ps_session_id r = number (r_session_id b)"
      "points_scored r = Some (or_num (r_points_scored b) 0)"
      "saves r = Some (or_num (r_saves b) 0)"
      "mvp_award r = Some (or_bool (r_mvp_award b) False)"
    by auto
  have "distinct (map ?key (player_sessions ?db'))"
    using schema_ok_post_player_sessions[OF assms(1), of now b] by (simp add: schema_ok_def)
  from filter_distinct_key[of ?key, OF this r(1)] r(2,3)
  have "rows_of_pair (number (r_player_id b)) (number (r_session_id b)) ?db' = [r]"
    by (simp add: rows_of_pair_def)
  with r show ?thesis by blast
qed

text \<open>
  C2, as amended. In the later revision, after statistics are recorded twice for one
  (player, session) pair, the second call succeeding, exactly one row holds that pair
  and it carries the second call's values (0 and false for absent ones). In the earlier
  revision every successful call adds a row for its (player, date) pair.
\<close>

theorem record_twice_one_row:
  "(schema_ok db
    \<and> number (r_player_id b2) = number (r_player_id b1)
    \<and> number (r_session_id b2) = number (r_session_id b1)
    \<and> status (fst (post_player_sessions now2 b2 (snd (post_player_sessions now1 b1 db)))) = 200 \<longrightarrow>
      (\<exists>r. rows_of_pair (number (r_player_id b1)) (number (r_session_id b1))
              (snd (post_player_sessions now2 b2 (snd (post_player_sessions now1 b1 db)))) = [r]
          \<and> points_scored r = Some (or_num (r_points_scored b2) 0)
          \<and> saves r = Some (or_num (r_saves b2) 0)
          \<and> mvp_award r = Some (or_bool (r_mvp_award b2) False)))
   \<and> (status (fst (post_sessions_v1 date_in now c dbv)) = 200
        \<and> date_in (template (q_session_date c)) = Some d \<longrightarrow>
        length (rows_of_pair_v1 (number (q_player_id c)) d (snd (post_sessions_v1 date_in now c dbv)))
          = length (rows_of_pair_v1 (number (q_player_id c)) d dbv) + 1)"
proof (intro conjI impI; elim conjE)
  assume a: "schema_ok db" "number (r_player_id b2) = number (r_player_id b1)"
    "number (r_session_id b2) = number (r_session_id b1)"
    "status (fst (post_player_sessions now2 b2 (snd (post_player_sessions now1 b1 db)))) = 200"
  from post_player_sessions_one_row[OF schema_ok_post_player_sessions[OF a(1), of now1 b1] a(4)] a(2,3)
  show "\<exists>r. rows_of_pair (number (r_player_id b1)) (number (r_session_id b1))
              (snd (post_player_sessions now2 b2 (snd (post_player_sessions now1 b1 db)))) = [r]
          \<and> points_scored r = Some (or_num (r_points_scored b2) 0)
          \<and> saves r = Some (or_num (r_saves b2) 0)
          \<and> mvp_award r = Some (or_bool (r_mvp_award b2) False)"
    by simp
next
  assume a: "status (fst (post_sessions_v1 date_in now c dbv)) = 200"
    "date_in (template (q_session_date c)) = Some d"
  from post_sessions_v1_atomic[of date_in now c dbv "fst (post_sessions_v1 date_in now c dbv)"
      "snd (post_sessions_v1 date_in now c dbv)"] a
  show "length (rows_of_pair_v1 (number (q_player_id c)) d (snd (post_sessions_v1 date_in now c dbv)))
          = length (rows_of_pair_v1 (number (q_player_id c)) d dbv) + 1"
    by (auto simp: rows_of_pair_v1_def)
qed

theorem record_twice_one_row_witness:
  "schema_ok repaired
   \<and> number (r_player_id (ann_stats\<lparr>r_points_scored := Some 7, r_saves := None, r_mvp_award := None\<rparr>))
       = number (r_player_id ann_stats)
   \<and> number (r_session_id (ann_stats\<lparr>r_points_scored := Some 7, r_saves := None, r_mvp_award := None\<rparr>))
       = number (r_session_id ann_stats)
   \<and> status (fst (post_player_sessions 6
        (ann_stats\<lparr>r_points_scored := Some 7, r_saves := None, r_mvp_award := None\<rparr>)
        (snd (post_player_sessions 5 ann_stats repaired)))) = 200
   \<and> map (\<lambda>r. (points_scored r, saves r, mvp_award r))
        (rows_of_pair 1 1 (snd (post_player_sessions 6
           (ann_stats\<lparr>r_points_scored := Some 7, r_saves := None, r_mvp_award := None\<rparr>)
           (snd (post_player_sessions 5 ann_stats repaired)))))
       = [(Some 7, Some 0, Some False)]
   \<and> status (fst (post_sessions_v1 sample_date_in 4 ann_stats_v1 recorded_v1)) = 200
   \<and> sample_date_in (template (q_session_date ann_stats_v1)) = Some 19783
   \<and> length (rows_of_pair_v1 1 19783 (snd (post_sessions_v1 sample_date_in 4 ann_stats_v1 recorded_v1)))
       = 2"
  using record_twice_one_row[of repaired
      "ann_stats\<lparr>r_points_scored := Some 7, r_saves := None, r_mvp_award := None\<rparr>" ann_stats
      6 5 sample_date_in 4 ann_stats_v1 recorded_v1 19783]
  by (simp add: repaired_eq after_scenario_eq recorded_v1_eq eval_defs eval_defs_v1
      schema_ok_def rows_of_pair_def rows_of_pair_v1_def)

text \<open>
  C2 as stated fails in the earlier revision, which inserts without a uniqueness
  constraint: recording Ann's statistics for 2024-03-01 twice leaves two rows for the
  pair.
\<close>

theorem post_sessions_v1_duplicate_row:
  "status (fst (post_sessions_v1 sample_date_in 3 ann_stats_v1 ann_v1)) = 200
   \<and> status (fst (post_sessions_v1 sample_date_in 4 ann_stats_v1 recorded_v1)) = 200
   \<and> length (rows_of_pair_v1 1 19783
        (snd (post_sessions_v1 sample_date_in 4 ann_stats_v1 recorded_v1))) = 2"
  by (simp add: ann_v1_eq recorded_v1_eq eval_defs eval_defs_v1 rows_of_pair_v1_def)

subsection \<open>The running counters after recording statistics\<close>

lemma counters_match_record_all:
  "counters_match i db \<Longrightarrow> counters_match i (record_all cs db)"
proof (induction cs arbitrary: db)
  case Nil
  then show ?case by simp
next
  case (Cons c cs)
  have "counters_match i (snd (post_player_sessions (fst c) (snd c) db))"
    using post_player_sessions_counters[of "fst c" "snd c" db
        "fst (post_player_sessions (fst c) (snd c) db)"
        "snd (post_player_sessions (fst c) (snd c) db)" i] Cons.prems
    by simp
  then show ?case using Cons.IH by simp
qed

text \<open>
  C1. In the later revision the stored counters of a player equal the aggregates over
  the player's rows after every successful recording for that player, whatever the
  state before, and a call that does not succeed leaves the equality as it was; so the
  equality, once it holds, holds after every call of every sequence of calls.
  The earlier revision increments the counters by the body's values and loses them
  when the body leaves points or saves out: after 10 points for 2024-03-01 and a body
  with only the player and the date 2024-03-08, the answer is 200, Ann's rows hold 10
  points in all, and her stored \<^verbatim>\<open>total_points_scored\<close> and \<^verbatim>\<open>total_saves\<close> are NULL.
\<close>

theorem running_counters:
  "(counters_match i db \<longrightarrow> counters_match i (record_all cs db))
   \<and> (status (fst (post_player_sessions now b db)) = 200 \<longrightarrow>
        counters_match (number (r_player_id b)) (snd (post_player_sessions now b db)))
   \<and> (status (fst (post_player_sessions now b db)) \<noteq> 200 \<longrightarrow>
        counters_match i (snd (post_player_sessions now b db)) = counters_match i db)
   \<and> fst (post_sessions_v1 sample_date_in 4 attendance_only_v1 recorded_v1)
       = Response 200 (Message ''Session statistics added successfully'')
   \<and> sum_points_scored_v1 1
        (player_sessions_v1 (snd (post_sessions_v1 sample_date_in 4 attendance_only_v1 recorded_v1)))
       = 10
   \<and> map total_points_scored
        (players (snd (post_sessions_v1 sample_date_in 4 attendance_only_v1 recorded_v1)))
       = [None]
   \<and> map total_saves
        (players (snd (post_sessions_v1 sample_date_in 4 attendance_only_v1 recorded_v1)))
       = [None]
   \<and> map sessions_attended_count
        (players (snd (post_sessions_v1 sample_date_in 4 attendance_only_v1 recorded_v1)))
       = [Some 2]"
proof -
  have "counters_match i (record_all cs db)" if "counters_match i db"
    using that by (rule counters_match_record_all)
  moreover have "counters_match (number (r_player_id b)) (snd (post_player_sessions now b db))"
    if "status (fst (post_player_sessions now b db)) = 200"
    using post_player_sessions_counters[of now b db "fst (post_player_sessions now b db)"
        "snd (post_player_sessions now b db)" "number (r_player_id b)"] that by simp
  moreover have "counters_match i (snd (post_player_sessions now b db)) = counters_match i db"
    if "status (fst (post_player_sessions now b db)) \<noteq> 200"
    using post_player_sessions_counters[of now b db "fst (post_player_sessions now b db)"
        "snd (post_player_sessions now b db)" i] that by simp
  moreover have "fst (post_sessions_v1 sample_date_in 4 attendance_only_v1 recorded_v1)
       = Response 200 (Message ''Session statistics added successfully'')
   \<and> sum_points_scored_v1 1
        (player_sessions_v1 (snd (post_sessions_v1 sample_date_in 4 attendance_only_v1 recorded_v1)))
       = 10
   \<and> map total_points_scored
        (players (snd (post_sessions_v1 sample_date_in 4 attendance_only_v1 recorded_v1)))
       = [None]
   \<and> map total_saves
        (players (snd (post_sessions_v1 sample_date_in 4 attendance_only_v1 recorded_v1)))
       = [None]
   \<and> map sessions_attended_count
        (players (snd (post_sessions_v1 sample_date_in 4 attendance_only_v1 recorded_v1)))
       = [Some 2]"
    by (simp add: recorded_v1_eq eval_defs eval_defs_v1 sum_points_scored_v1_def)
  ultimately show ?thesis by blast
qed

theorem running_counters_witness:
  "counters_match 1 after_scenario
   \<and> counters_match 1 (record_all [(5, ann_stats\<lparr>r_points_scored := Some 7\<rparr>), (6, one_more_point)]
        after_scenario)
   \<and> \<not> counters_match 1 repaired
   \<and> status (fst (post_player_sessions 5 ann_stats repaired)) = 200
   \<and> counters_match 1 (snd (post_player_sessions 5 ann_stats repaired))
   \<and> status (fst (post_player_sessions 6 one_more_point repaired)) = 500
   \<and> \<not> counters_match 1 (snd (post_player_sessions 6 one_more_point repaired))"
  using running_counters[of 1 after_scenario
      "[(5, ann_stats\<lparr>r_points_scored := Some 7\<rparr>), (6, one_more_point)]" 5 ann_stats]
    running_counters[of 1 repaired "[]" 5 ann_stats]
    running_counters[of 1 repaired "[]" 6 one_more_point]
  by (simp add: repaired_eq after_scenario_eq eval_defs one_more_point_def counters_match_def)

subsection \<open>POST /api/repair-database\<close>

lemma counters_match_serve:
  assumes "schema_ok db" "i \<in> set (map p_id (players db))"
  shows "counters_match i (serve date_in q db) = counters_match i db
     \<or> (\<exists>now b. q = POST_player_sessions now b \<and> number (r_player_id b) = i
           \<and> status (fst (post_player_sessions now b db)) = 200)
     \<or> q = DELETE_players i \<or> drops_statistics q"
proof (cases q)
  case (POST_players now b)
  from assms have le: "i \<le> players_id_seq db" by (auto simp: schema_ok_def)
  have "filter (\<lambda>p. p_id p = i) (players (snd (post_players now b db)))
      = filter (\<lambda>p. p_id p = i) (players db)"
    using post_players_effect[of now b db] le by auto
  then have "counters_match i (snd (post_players now b db)) = counters_match i db"
    using post_players_effect[of now b db] by (intro counters_match_cong) simp_all
  with POST_players show ?thesis by simp
next
  case (PUT_players now j b)
  obtain r db' where r: "update_player now b j db = (r, db')" by (cases "update_player now b j db")
  have "snd (put_players now j b db) = db'"
    using r by (cases r) (auto simp: put_players_def)
  moreover have "counters_match i db' = counters_match i db"
    using update_player_effect[OF r] by (simp only: counters_match_stats)
  ultimately show ?thesis using PUT_players by simp
next
  case (DELETE_players j)
  show ?thesis
  proof (cases "j = i")
    case True
    with DELETE_players show ?thesis by simp
  next
    case False
    let ?db' = "snd (delete_players j db)"
    have "players ?db' = players db \<and> player_sessions ?db' = player_sessions db
        \<or> players ?db' = filter (\<lambda>p. p_id p \<noteq> j) (players db)
          \<and> player_sessions ?db' = filter (\<lambda>r. ps_player_id r \<noteq> j) (player_sessions db)"
      by (auto simp: delete_players_def delete_from_players_def)
    then have "counters_match i ?db' = counters_match i db"
      using False by (intro counters_match_cong) (auto simp: rows_of_filter_other intro: filter_cong)
    with DELETE_players show ?thesis by simp
  qed
next
  case (POST_sessions now b)
  have "counters_match i (snd (post_sessions date_in now b db)) = counters_match i db"
    using post_sessions_frame[of date_in now b db] by (intro counters_match_cong) simp_all
  with POST_sessions show ?thesis by simp
next
  case (POST_player_sessions now b)
  from post_player_sessions_counters[of now b db "fst (post_player_sessions now b db)"
      "snd (post_player_sessions now b db)" i] POST_player_sessions
  show ?thesis by auto
next
  case POST_repair_database
  then show ?thesis by simp
next
  case Restart
  then show ?thesis by simp
qed

text \<open>
  C9. POST /api/repair-database of the later revision answers 200, empties
  \<^verbatim>\<open>player_sessions\<close> and leaves \<^verbatim>\<open>players\<close> and \<^verbatim>\<open>sessions\<close> as they were, so every
  player with a counter other than 0 no longer has counters equal to the aggregates.
  For an existing player whose counters do not match, the only requests after which
  they match are a successful recording of statistics for that player, which always
  restores the equality, the player's deletion, and a further drop of the statistics.
  The earlier revision's endpoint of the same path answers 200 and changes no row.
\<close>

theorem repair_database_breaks_counters:
  "fst (post_repair_database db) = Response 200 (Message ''Database repaired successfully'')
   \<and> player_sessions (snd (post_repair_database db)) = []
   \<and> players (snd (post_repair_database db)) = players db
   \<and> sessions (snd (post_repair_database db)) = sessions db
   \<and> (\<forall>p \<in> set (players db).
         (total_points_scored p \<noteq> Some 0 \<or> total_saves p \<noteq> Some 0
          \<or> mvp_awards_count p \<noteq> Some 0 \<or> sessions_attended_count p \<noteq> Some 0) \<longrightarrow>
         \<not> counters_match (p_id p) (snd (post_repair_database db)))
   \<and> (schema_ok db' \<and> i \<in> set (map p_id (players db')) \<and> \<not> counters_match i db'
        \<and> counters_match i (serve date_in q db') \<longrightarrow>
        (\<exists>now b. q = POST_player_sessions now b \<and> number (r_player_id b) = i
           \<and> status (fst (post_player_sessions now b db')) = 200)
        \<or> q = DELETE_players i \<or> drops_statistics q)
   \<and> (status (fst (post_player_sessions now b db')) = 200 \<longrightarrow>
        counters_match (number (r_player_id b)) (snd (post_player_sessions now b db')))
   \<and> post_repair_database_v1 dbv
       = (Response 200 (Message ''Database repaired successfully''), dbv)"
proof -
  have "\<not> counters_match (p_id p) (snd (post_repair_database db))"
    if "p \<in> set (players db)"
      "total_points_scored p \<noteq> Some 0 \<or> total_saves p \<noteq> Some 0
          \<or> mvp_awards_count p \<noteq> Some 0 \<or> sessions_attended_count p \<noteq> Some 0" for p
    using that
    by (auto simp: counters_match_def post_repair_database_def recreate_player_sessions_def
          sum_points_scored_def sum_saves_def count_mvp_def count_rows_def rows_of_def)
  moreover have "(\<exists>now b. q = POST_player_sessions now b \<and> number (r_player_id b) = i
           \<and> status (fst (post_player_sessions now b db')) = 200)
        \<or> q = DELETE_players i \<or> drops_statistics q"
    if "schema_ok db'" "i \<in> set (map p_id (players db'))" "\<not> counters_match i db'"
      "counters_match i (serve date_in q db')"
    using counters_match_serve[OF that(1,2), of date_in q] that(3,4) by blast
  moreover have "counters_match (number (r_player_id b)) (snd (post_player_sessions now b db'))"
    if "status (fst (post_player_sessions now b db')) = 200"
    using post_player_sessions_counters[of now b db' "fst (post_player_sessions now b db')"
        "snd (post_player_sessions now b db')" "number (r_player_id b)"] that by simp
  ultimately show ?thesis
    by (simp add: post_repair_database_def recreate_player_sessions_def post_repair_database_v1_def)
qed

theorem repair_database_breaks_counters_witness:
  "player_sessions after_scenario \<noteq> []
   \<and> player_sessions repaired = [] \<and> players repaired = players after_scenario
   \<and> map total_points_scored (players after_scenario) = [Some 10]
   \<and> counters_match 1 after_scenario
   \<and> \<not> counters_match 1 repaired
   \<and> schema_ok repaired \<and> 1 \<in> set (map p_id (players repaired))
   \<and> \<not> counters_match 1 (serve sample_date_in (POST_players 5 bea) repaired)
   \<and> status (fst (post_player_sessions 5 ann_stats repaired)) = 200
   \<and> counters_match 1 (serve sample_date_in (POST_player_sessions 5 ann_stats) repaired)"
  using repair_database_breaks_counters[of after_scenario repaired 1 sample_date_in
      "POST_player_sessions 5 ann_stats" 5 ann_stats empty_db_v1, folded repaired_def]
  by (simp add: repaired_eq after_scenario_eq eval_defs bea_def schema_ok_def counters_match_def)


end
